theory Spec2Isabelle
  imports Complex_Main "HOL-Library.AList"
begin

section \<open>BTCLab: the dip-buying loop of \<^verbatim>\<open>btclab/buydips.py\<close>\<close>

text \<open>
  The development embeds \<^verbatim>\<open>bought_less_than_24h_ago\<close> and the body of \<^verbatim>\<open>main\<close> of
  \<^verbatim>\<open>src/btclab/buydips.py\<close>, and \<^verbatim>\<open>send_msg\<close> of
  \<^verbatim>\<open>src/components/common/NotificationsHelper.py\<close>.

  Conventions of the embedding:
  \<^item> a Python \<^verbatim>\<open>float\<close> is a \<^typ>\<open>real\<close> holding the value of a double; each arithmetic
    operation of the code rounds its exact result to the nearest double, ties to even,
    as IEEE 754 binary64 does (\<open>round_float\<close>); comparisons are exact; infinities and
    NaN are not modelled;
  \<^item> a Python \<^verbatim>\<open>dict\<close> is an association list in insertion order, read with
    \<^const>\<open>map_of\<close> and written with \<^const>\<open>AList.update\<close> (a present key keeps its place
    and gets the new value, a new key is appended);
  \<^item> an exception is a value \<open>Inl e\<close> of a sum type;
  \<^item> whatever the outside world answers (the clock and the time zone, the exchange, the
    HTTP request of the notification) is an explicit argument;
  \<^item> every visible effect (a log call, an HTTP request, a sleep, a call of the
    exchange, a write of the store) is appended to a trace of events.
\<close>

subsection \<open>Exceptions\<close>

datatype exc =
    InsufficientFunds       \<comment> \<open>\<^verbatim>\<open>ccxt.base.errors.InsufficientFunds\<close>\<close>
  | NetworkError            \<comment> \<open>\<^verbatim>\<open>ccxt.base.errors.NetworkError\<close>\<close>
  | RequestTimeout          \<comment> \<open>\<^verbatim>\<open>ccxt.base.errors.RequestTimeout\<close>\<close>
  | ExchangeError           \<comment> \<open>any other error of the exchange client\<close>
  | RequestException        \<comment> \<open>\<^verbatim>\<open>requests.exceptions.RequestException\<close>, raised by \<^verbatim>\<open>requests.get\<close>\<close>
  | ZeroDivisionError
  | KeyError
  | UnboundLocalError
  | TimestampOutOfRange     \<comment> \<open>\<^verbatim>\<open>ValueError\<close>/\<^verbatim>\<open>OverflowError\<close>/\<^verbatim>\<open>OSError\<close> of \<^verbatim>\<open>datetime.fromtimestamp\<close>\<close>
  | Exit int                \<comment> \<open>\<^verbatim>\<open>typer.Exit(code)\<close>\<close>

subsection \<open>Python numbers and their \<^verbatim>\<open>str\<close>\<close>

text \<open>
  The timestamp of a purchase is a Python \<^verbatim>\<open>int\<close> or \<^verbatim>\<open>float\<close>, and the code looks at its
  text. An \<^verbatim>\<open>int\<close> is \<open>PyInt i\<close>. A finite \<^verbatim>\<open>float\<close> is given by what CPython's \<^verbatim>\<open>repr\<close>
  computes first: its sign, the digits \<open>d\<^sub>1 \<dots> d\<^sub>n\<close> of its shortest decimal form, and
  the position \<open>decpt\<close> of the decimal point, the value being \<open>0.d\<^sub>1\<dots>d\<^sub>n \<times> 10\<^bsup>decpt\<^esup>\<close>
  (\<open>0.0\<close> has the digits \<open>[0]\<close> and \<open>decpt = 1\<close>). Infinities and NaN are not modelled.
\<close>

datatype pynum = PyInt int | PyFloat bool "nat list" int

definition digit_char :: "nat \<Rightarrow> char" where
  "digit_char d = ''0123456789'' ! d"

fun str_nat :: "nat \<Rightarrow> string" where
  "str_nat n = (if n < 10 then [digit_char n]
                else str_nat (n div 10) @ [digit_char (n mod 10)])"

declare str_nat.simps [simp del]

definition str_int :: "int \<Rightarrow> string" where
  "str_int i = (if i < 0 then CHR ''-'' # str_nat (nat (- i)) else str_nat (nat i))"

text \<open>
  \<^verbatim>\<open>repr\<close> of a float (\<^verbatim>\<open>format_float_short\<close> with format code \<^verbatim>\<open>'r'\<close> and the flag that
  adds \<^verbatim>\<open>.0\<close>): exponent notation when \<open>decpt \<le> -4\<close> or \<open>decpt > 16\<close>, with a point only
  when there is more than one digit; positional notation otherwise, always with a point.
\<close>

definition str_exponent :: "int \<Rightarrow> string" where
  "str_exponent e =
     (if e < 0 then CHR ''-'' else CHR ''+'')
       # (if \<bar>e\<bar> < 10 then ''0'' else '''') @ str_nat (nat \<bar>e\<bar>)"

definition float_repr :: "bool \<Rightarrow> nat list \<Rightarrow> int \<Rightarrow> string" where
  "float_repr neg ds decpt =
     (if neg then ''-'' else '''') @
     (let cs = map digit_char ds; n = int (length ds) in
      if decpt \<le> - 4 \<or> 16 < decpt then
        take 1 cs @ (if 1 < n then CHR ''.'' # drop 1 cs else '''')
          @ CHR ''e'' # str_exponent (decpt - 1)
      else if decpt \<le> 0 then ''0.'' @ replicate (nat (- decpt)) CHR ''0'' @ cs
      else if decpt < n then take (nat decpt) cs @ CHR ''.'' # drop (nat decpt) cs
      else cs @ replicate (nat (decpt - n)) CHR ''0'' @ ''.0'')"

fun str :: "pynum \<Rightarrow> string" where
  "str (PyInt i) = str_int i"
| "str (PyFloat neg ds decpt) = float_repr neg ds decpt"

subsection \<open>Binary floating point\<close>

text \<open>
  \<open>round_float x\<close> is the double nearest to \<open>x\<close>: with \<open>2\<^bsup>e\<^esup> \<le> \<bar>x\<bar> < 2\<^bsup>e+1\<^esup>\<close> the
  doubles around \<open>x\<close> are the multiples of \<open>2\<^bsup>e-52\<^esup>\<close> (of \<open>2\<^bsup>-1074\<^esup>\<close> in the subnormal
  range, below \<open>2\<^bsup>-1022\<^esup>\<close>), and a tie goes to the even multiple. A result beyond the
  largest double is left as it is, where Python has an infinity: it compares with a
  finite number as the infinity does.
\<close>

definition round_half_even :: "real \<Rightarrow> int" where
  "round_half_even x =
     (let f = \<lfloor>x\<rfloor>; d = x - of_int f in
      if d < 1 / 2 then f else if 1 / 2 < d then f + 1 else if even f then f else f + 1)"

definition pow2 :: "int \<Rightarrow> real" where
  "pow2 e = (if 0 \<le> e then 2 ^ nat e else 1 / 2 ^ nat (- e))"

definition float_exponent :: "real \<Rightarrow> int" where
  "float_exponent x = max \<lfloor>log 2 \<bar>x\<bar>\<rfloor> (- 1022)"

definition round_float :: "real \<Rightarrow> real" where
  "round_float x =
     (if x = 0 then 0
      else (let ulp = pow2 (float_exponent x - 52) in
            real_of_int (round_half_even (x / ulp)) * ulp))"

text \<open>Python's \<^verbatim>\<open>/\<close>, \<^verbatim>\<open>-\<close> and \<^verbatim>\<open>*\<close> on floats (the caller checks the divisor).\<close>

definition fdiv :: "real \<Rightarrow> real \<Rightarrow> real" where
  "fdiv x y = round_float (x / y)"

definition fsub :: "real \<Rightarrow> real \<Rightarrow> real" where
  "fsub x y = round_float (x - y)"

definition fmul :: "real \<Rightarrow> real \<Rightarrow> real" where
  "fmul x y = round_float (x * y)"

text \<open>
  The number that a \<open>pynum\<close> holds: the integer, or the double that the decimal text of
  the float denotes (the nearest one, since \<^verbatim>\<open>repr\<close> round-trips).
\<close>

definition digits_value :: "nat list \<Rightarrow> nat" where
  "digits_value ds = foldl (\<lambda>a d. 10 * a + d) 0 ds"

definition scale10 :: "real \<Rightarrow> int \<Rightarrow> real" where
  "scale10 x e = (if 0 \<le> e then x * 10 ^ nat e else x / 10 ^ nat (- e))"

fun num_value :: "pynum \<Rightarrow> real" where
  "num_value (PyInt i) = real_of_int i"
| "num_value (PyFloat neg ds decpt) =
     round_float
       ((if neg then - 1 else 1) * scale10 (real (digits_value ds)) (decpt - int (length ds)))"

subsection \<open>Data model\<close>

type_synonym symbol = string

text \<open>The fields of an order (the dict that \<^verbatim>\<open>crypto.place_order\<close> returns) that the code reads.\<close>

record purchase =
  price :: real
  amount :: real
  timestamp :: pynum

type_synonym orders = "(symbol \<times> purchase) list"

text \<open>A ticker of \<^verbatim>\<open>fetch_tickers\<close>: \<^verbatim>\<open>ticker['last']\<close> and \<^verbatim>\<open>ticker['percentage']\<close>.\<close>

record ticker =
  last_price :: real
  percentage :: real

subsection \<open>The day window\<close>

text \<open>
  The platform's clock and time zone: the present instant in microseconds since the
  epoch, and the offset of local time from UTC, in seconds, at a given second since the
  epoch (what \<^verbatim>\<open>localtime\<close> applies). A naive local \<^verbatim>\<open>datetime\<close> is the number of
  microseconds between 1970-01-01 00:00:00 and it on the local wall clock.
\<close>

record local_clock =
  instant :: int
  utcoffset :: "int \<Rightarrow> int"

definition to_local :: "local_clock \<Rightarrow> int \<Rightarrow> int" where
  "to_local c us =
     (us div 1000000 + utcoffset c (us div 1000000)) * 1000000 + us mod 1000000"

text \<open>\<^verbatim>\<open>datetime.now()\<close>.\<close>

definition datetime_now :: "local_clock \<Rightarrow> int" where
  "datetime_now c = to_local c (instant c)"

text \<open>
  The instant of a timestamp in microseconds, as \<^verbatim>\<open>datetime.fromtimestamp\<close> computes it
  from a float (\<^verbatim>\<open>_PyTime_ObjectToTimeval\<close>): the double is split into its integral and
  fractional parts, the fraction is multiplied by \<open>10\<^sup>6\<close> in floating point and rounded
  to an integer, ties to even. The argument is the exact number that the code's
  expression denotes; the float that the code holds is the double nearest to it (for an
  \<^verbatim>\<open>int\<close> divided by 1000, the correctly rounded quotient of Python's true division).
\<close>

definition timestamp_micros :: "real \<Rightarrow> int" where
  "timestamp_micros t =
     (let d = round_float t;
          intpart = (if 0 \<le> d then \<lfloor>d\<rfloor> else \<lceil>d\<rceil>);
          floatpart = round_float ((d - of_int intpart) * 1000000)
      in intpart * 1000000 + round_half_even floatpart)"

text \<open>
  \<^verbatim>\<open>datetime.fromtimestamp(timestamp)\<close>: the local time of that instant. It raises when
  the local year is outside 1 to 9999, also for the instant 24 hours earlier, which
  CPython converts too (to detect a repeated hour).
\<close>

definition fromtimestamp :: "local_clock \<Rightarrow> real \<Rightarrow> exc + int" where
  "fromtimestamp c t =
     (let us = timestamp_micros t in
      if - 62135596800000000 \<le> to_local c (us - 86400000000)
         \<and> - 62135596800000000 \<le> to_local c us
         \<and> to_local c us \<le> 253402300799999999
      then Inr (to_local c us)
      else Inl TimestampOutOfRange)"

text \<open>\<^verbatim>\<open>timedelta.days\<close>: a \<^verbatim>\<open>timedelta\<close> is normalised so that its seconds and microseconds
  are not negative, hence \<open>days\<close> is the floor of the difference in days.\<close>

definition timedelta_days :: "int \<Rightarrow> int" where
  "timedelta_days diff = diff div 86400000000"

text \<open>
  Lines 34 to 36: the timestamp, divided by 1000 when its text has no point. The
  quotient is kept exact here; \<open>timestamp_micros\<close> takes the double nearest to it.
\<close>

definition normalize_timestamp :: "pynum \<Rightarrow> real" where
  "normalize_timestamp ts =
     (if CHR ''.'' \<notin> set (str ts) then num_value ts / 1000 else num_value ts)"

text \<open>\<^verbatim>\<open>bought_less_than_24h_ago(symbol, orders)\<close>, with the clock that \<^verbatim>\<open>datetime.now()\<close> and
  \<^verbatim>\<open>datetime.fromtimestamp\<close> read.\<close>

definition bought_less_than_24h_ago :: "local_clock \<Rightarrow> symbol \<Rightarrow> orders \<Rightarrow> exc + bool" where
  "bought_less_than_24h_ago c symbol orders =
     (case map_of orders symbol of
        Some r \<Rightarrow>
          (case fromtimestamp c (normalize_timestamp (timestamp r)) of
             Inl e \<Rightarrow> Inl e
           | Inr bought_on \<Rightarrow> Inr (timedelta_days (datetime_now c - bought_on) \<le> 1))
      | None \<Rightarrow> Inr False)"

subsection \<open>Configuration, effects and the answers of the outside world\<close>

text \<open>
  The options of \<^verbatim>\<open>main\<close> and the values it reads from \<^verbatim>\<open>config\<close> and the environment.
  Log and notification texts are kept as structured messages; \<open>render\<close> stands for the
  f-strings that turn one into text (number formatting is not modelled).
\<close>

datatype level = Debug | Info | Warning | Error

datatype message =
    StartingSessionMsg bool
  | UnsupportedSymbolsMsg "symbol list"
  | TrackingMsg "symbol list"
  | MinDropLevelMsg real
  | AdditionalDropLevelMsg real
  | RunVerboseMsg
  | PreviouslyBoughtMsg
  | BoughtMsg symbol real real
  | InsufficientFundsMsg real
  | BuyAgainMsg symbol real real
  | BuyFirstTimeMsg symbol real real
  | NotEnoughDiscountMsg symbol real real
  | CheckingAgainMsg real
  | RetryingMsg exc real

record config =
  amount_usd :: real
  freq :: real
  min_drop :: real
  min_additional_drop :: real
  dry_run :: bool
  reset_cache :: bool
  retry_after :: real
  bot_token :: string
  chat_id :: string
  render :: "message \<Rightarrow> string"

text \<open>
  The events of a trace. \<open>PlaceOrder\<close> is a call of \<^verbatim>\<open>crypto.place_order\<close> (symbol, price,
  amount, dry run) together with what the exchange answered; \<open>HttpGet\<close> is a call of
  \<^verbatim>\<open>requests.get\<close> with that URL.
\<close>

datatype event =
    Log level message                   \<comment> \<open>a call of the logger at that level\<close>
  | HttpGet string                      \<comment> \<open>\<^verbatim>\<open>requests.get(url)\<close>\<close>
  | Sleep real                          \<comment> \<open>\<^verbatim>\<open>time.sleep(seconds)\<close>\<close>
  | GetUnsupportedSymbols "symbol list"
  | GetOrders                           \<comment> \<open>\<^verbatim>\<open>db.get_orders()\<close>\<close>
  | FetchTickers "symbol list"
  | PlaceOrder symbol real real bool "exc + purchase"
  | Save orders                         \<comment> \<open>\<^verbatim>\<open>db.save(orders)\<close>\<close>

text \<open>
  \<open>orders\<close> is the local variable of \<^verbatim>\<open>main\<close>, \<open>store\<close> the persisted Order Store,
  \<open>trace\<close> the effects so far.
\<close>

record state =
  orders :: orders
  store :: orders
  trace :: "event list"

definition emit :: "event \<Rightarrow> state \<Rightarrow> state" where
  "emit ev st = st\<lparr>trace := trace st @ [ev]\<rparr>"

text \<open>
  Modelled from the spec: \<^verbatim>\<open>db.save\<close> and \<^verbatim>\<open>db.get_orders\<close> (module \<^verbatim>\<open>db\<close> is not among the
  sources). \<open>save\<close> overwrites the whole persisted state with the mapping it is given;
  \<open>get_orders\<close> (the specification's \<open>load\<close>) returns the persisted mapping.
\<close>

definition save :: "orders \<Rightarrow> state \<Rightarrow> state" where
  "save os st = emit (Save os) (st\<lparr>store := os\<rparr>)"

definition get_orders :: "state \<Rightarrow> orders \<times> state" where
  "get_orders st = (store st, emit GetOrders st)"

text \<open>
  What the outside world answers while one symbol is processed: the clock, the exchange
  to the order (\<^verbatim>\<open>crypto.place_order\<close> is not among the sources: it returns an order or
  raises), and \<^verbatim>\<open>requests.get\<close> to the notification's URL (it raises, or returns a
  response with a status code). Each is asked at most once per symbol.
\<close>

record answers =
  clock :: local_clock
  place_order_result :: "exc + purchase"
  requests_get :: "string \<Rightarrow> exc + nat"

subsection \<open>The notifier\<close>

text \<open>
  \<^verbatim>\<open>send_msg\<close> of \<^verbatim>\<open>NotificationsHelper.py\<close>: build the URL, call \<^verbatim>\<open>requests.get\<close>, drop the
  response. There is no \<^verbatim>\<open>try\<close>: what \<^verbatim>\<open>requests.get\<close> raises, \<^verbatim>\<open>send_msg\<close> raises.
  The result is the exception raised, if any, and the state.
\<close>

definition telegram_url :: "string \<Rightarrow> string \<Rightarrow> string \<Rightarrow> string" where
  "telegram_url telegram_bot_token telegram_chat_id msg =
     ''https://api.telegram.org/bot'' @ telegram_bot_token
       @ ''/sendMessage?chat_id='' @ telegram_chat_id @ ''&text='' @ msg"

definition send_msg ::
  "(string \<Rightarrow> exc + nat) \<Rightarrow> string \<Rightarrow> string \<Rightarrow> string \<Rightarrow> state \<Rightarrow> exc option \<times> state" where
  "send_msg get telegram_bot_token telegram_chat_id msg st =
     (let url = telegram_url telegram_bot_token telegram_chat_id msg;
          st' = emit (HttpGet url) st in
      case get url of Inl e \<Rightarrow> (Some e, st') | Inr response \<Rightarrow> (None, st'))"

subsection \<open>The dip detector (lines 133 to 140 of \<^verbatim>\<open>main\<close>)\<close>

text \<open>
  The result is \<open>(buy_first_time, buy_again, discount_pct)\<close>; \<open>discount_pct\<close> is \<open>None\<close>
  when the branch that assigns it was not taken. Python's \<^verbatim>\<open>and\<close> does not call
  \<^verbatim>\<open>bought_less_than_24h_ago\<close> when the symbol is not in \<open>orders\<close>, and a float division by
  zero raises. Line 136 is evaluated in floating point: the quotient, the difference
  and the product are each rounded.
\<close>

definition dip_flags ::
  "config \<Rightarrow> local_clock \<Rightarrow> orders \<Rightarrow> symbol \<Rightarrow> ticker
     \<Rightarrow> exc + (bool \<times> bool \<times> real option)" where
  "dip_flags cfg now os symbol tk =
     (case (if map_of os symbol \<noteq> None then bought_less_than_24h_ago now symbol os
            else Inr False) of
        Inl e \<Rightarrow> Inl e
      | Inr True \<Rightarrow>
          (case map_of os symbol of
             None \<Rightarrow> Inl KeyError
           | Some r \<Rightarrow>
               if price r = 0 then Inl ZeroDivisionError
               else (let discount_pct = fmul (fsub (fdiv (last_price tk) (price r)) 1) 100 in
                     Inr (False, discount_pct < - min_additional_drop cfg, Some discount_pct)))
      | Inr False \<Rightarrow> Inr (percentage tk < - min_drop cfg, False, None))"

subsection \<open>One symbol of a cycle (lines 133 to 166)\<close>

text \<open>
  The body of the \<^verbatim>\<open>for\<close> loop is \<open>process_symbol\<close>; its parts are named:
  \<^item> \<open>notify\<close>: a call \<^verbatim>\<open>utils.send_msg(bot_token, chat_id, msg)\<close> (lines 153 and 164);
  \<^item> \<open>insufficient_funds\<close>: the \<^verbatim>\<open>except InsufficientFunds\<close> branch (lines 149 to 155);
  \<^item> \<open>bought\<close>: the \<^verbatim>\<open>else\<close> branch of the \<^verbatim>\<open>try\<close> (lines 156 to 164), run when
    \<^verbatim>\<open>place_order\<close> returned an order.
  The result is the exception that left the step, if any, and the state.
\<close>

text \<open>
  Modelled from the spec: \<^verbatim>\<open>utils.send_msg\<close> (module \<^verbatim>\<open>utils\<close> is not among the sources). The
  specification has one notifier wired into the main loop, the instant-messaging channel:
  that is \<^verbatim>\<open>send_msg\<close> of \<^verbatim>\<open>NotificationsHelper.py\<close>, called with the bot token, the chat and
  the text of the message. Nothing is caught around the call.
\<close>

definition notify :: "config \<Rightarrow> answers \<Rightarrow> message \<Rightarrow> state \<Rightarrow> exc option \<times> state" where
  "notify cfg a msg st =
     send_msg (requests_get a) (bot_token cfg) (chat_id cfg) (render cfg msg) st"

definition insufficient_funds :: "config \<Rightarrow> answers \<Rightarrow> state \<Rightarrow> exc option \<times> state" where
  "insufficient_funds cfg a st =
     (let msg = InsufficientFundsMsg (retry_after cfg) in
      case notify cfg a msg (emit (Log Warning msg) st) of
        (Some e, st') \<Rightarrow> (Some e, st')
      | (None, st') \<Rightarrow> (None, emit (Sleep (fmul (retry_after cfg) 60)) st'))"

definition bought ::
  "config \<Rightarrow> answers \<Rightarrow> symbol \<Rightarrow> ticker \<Rightarrow> bool \<Rightarrow> real option \<Rightarrow> purchase \<Rightarrow> state
     \<Rightarrow> exc option \<times> state" where
  "bought cfg a symbol tk buy_again discount_pct order st =
     (let os = AList.update symbol order (orders st);
          st' = save os (st\<lparr>orders := os\<rparr>) in
      if buy_again then
        (case discount_pct of
           None \<Rightarrow> (Some UnboundLocalError, st')
         | Some d \<Rightarrow>
             (let msg = BuyAgainMsg symbol (last_price tk) d in
              notify cfg a msg (emit (Log Info msg) st')))
      else
        (let msg = BuyFirstTimeMsg symbol (last_price tk) (percentage tk) in
         notify cfg a msg (emit (Log Info msg) st')))"

definition process_symbol ::
  "config \<Rightarrow> answers \<Rightarrow> symbol \<Rightarrow> ticker \<Rightarrow> state \<Rightarrow> exc option \<times> state" where
  "process_symbol cfg a symbol tk st =
     (case dip_flags cfg (clock a) (orders st) symbol tk of
        Inl e \<Rightarrow> (Some e, st)
      | Inr (buy_first_time, buy_again, discount_pct) \<Rightarrow>
          if buy_first_time \<or> buy_again then
            (let st' = emit (PlaceOrder symbol (last_price tk) (amount_usd cfg) (dry_run cfg)
                               (place_order_result a)) st in
             case place_order_result a of
               Inl e \<Rightarrow>
                 if e = InsufficientFunds then insufficient_funds cfg a st'
                 else (Some e, st')
             | Inr order \<Rightarrow> bought cfg a symbol tk buy_again discount_pct order st')
          else
            (None, emit (Log Debug
                      (NotEnoughDiscountMsg symbol (last_price tk) (percentage tk))) st))"

subsection \<open>The loop over the snapshot and the endless loop\<close>

text \<open>\<^verbatim>\<open>for symbol, ticker in tickers.items()\<close>; an exception ends the loop, \<^verbatim>\<open>continue\<close> and
  the end of the body go on with the next symbol.\<close>

fun for_tickers ::
  "config \<Rightarrow> (symbol \<Rightarrow> answers) \<Rightarrow> (symbol \<times> ticker) list \<Rightarrow> state \<Rightarrow> exc option \<times> state" where
  "for_tickers cfg ans [] st = (None, st)"
| "for_tickers cfg ans ((symbol, tk) # rest) st =
     (case process_symbol cfg (ans symbol) symbol tk st of
        (Some e, st') \<Rightarrow> (Some e, st')
      | (None, st') \<Rightarrow> for_tickers cfg ans rest st')"

text \<open>
  One polling cycle as the outside world plays it: what \<^verbatim>\<open>binance.fetch_tickers\<close> answers,
  and the answers for each symbol of the snapshot.
\<close>

record cycle =
  fetch_tickers_result :: "exc + (symbol \<times> ticker) list"
  answers_for :: "symbol \<Rightarrow> answers"

text \<open>
  \<^verbatim>\<open>while True\<close> has no exit but an exception. The model runs it against a finite script
  of cycles: \<open>Raised e\<close> when an exception leaves the loop, \<open>Running\<close> when the script is
  used up with the loop still going.
\<close>

datatype outcome = Raised exc | Running | Returned

fun trading_loop :: "config \<Rightarrow> symbol list \<Rightarrow> cycle list \<Rightarrow> state \<Rightarrow> outcome \<times> state" where
  "trading_loop cfg symbols [] st = (Running, st)"
| "trading_loop cfg symbols (c # cs) st =
     (let st1 = emit (FetchTickers symbols) st in
      case fetch_tickers_result c of
        Inl e \<Rightarrow> (Raised e, st1)
      | Inr tickers \<Rightarrow>
          (case for_tickers cfg (answers_for c) tickers st1 of
             (Some e, st2) \<Rightarrow> (Raised e, st2)
           | (None, st2) \<Rightarrow>
               trading_loop cfg symbols cs
                 (emit (Sleep (fmul (freq cfg) 60))
                    (emit (Log Info (CheckingAgainMsg (freq cfg))) st2))))"

subsection \<open>\<^verbatim>\<open>main\<close> and its \<^verbatim>\<open>@retry\<close> decorator\<close>

text \<open>
  One call of \<^verbatim>\<open>main\<close> as the outside world plays it: what
  \<^verbatim>\<open>crypto.get_unsupported_symbols\<close> answers at start-up, and the cycles that follow.
\<close>

record attempt =
  unsupported_result :: "exc + symbol list"
  cycles :: "cycle list"

text \<open>Lines 122 to 125: the purchases loaded from the store are logged.\<close>

definition log_previous :: "orders \<Rightarrow> state \<Rightarrow> state" where
  "log_previous os st =
     (if os \<noteq> [] then
        foldl (\<lambda>s (key, v). emit (Log Info (BoughtMsg key (amount v) (price v))) s)
          (emit (Log Info PreviouslyBoughtMsg) st) os
      else st)"

text \<open>Lines 115 to 127: \<open>orders\<close> is set from the store, or to the empty mapping under
  \<^verbatim>\<open>--reset-cache\<close>, and the settings are logged.\<close>

definition load_orders :: "config \<Rightarrow> symbol list \<Rightarrow> state \<Rightarrow> state" where
  "load_orders cfg symbols st =
     (let (os, st2) = (if \<not> reset_cache cfg then get_orders st else ([], st));
          st3 = emit (Log Info (TrackingMsg symbols)) (st2\<lparr>orders := os\<rparr>);
          st4 = emit (Log Info (MinDropLevelMsg (min_drop cfg))) st3;
          st5 = emit (Log Info (AdditionalDropLevelMsg (min_additional_drop cfg))) st4;
          st6 = emit (Log Info RunVerboseMsg) st5
      in log_previous os st6)"

text \<open>
  The body of \<^verbatim>\<open>main\<close>, from the start message to the endless loop. \<open>symbols\<close> are the
  symbols after lines 76 to 80 (upper case, quote currency added); the verbosity switch
  and the prompts for the exchange credentials are left out. \<open>check_symbols\<close> is the
  start message and the call of \<^verbatim>\<open>crypto.get_unsupported_symbols\<close> (lines 81 to 108).
\<close>

definition check_symbols :: "config \<Rightarrow> symbol list \<Rightarrow> state \<Rightarrow> state" where
  "check_symbols cfg symbols st =
     emit (GetUnsupportedSymbols symbols) (emit (Log Info (StartingSessionMsg (dry_run cfg))) st)"

definition main :: "config \<Rightarrow> symbol list \<Rightarrow> attempt \<Rightarrow> state \<Rightarrow> outcome \<times> state" where
  "main cfg symbols a st =
     (let st1 = check_symbols cfg symbols st in
      case unsupported_result a of
        Inl e \<Rightarrow> (Raised e, st1)
      | Inr non_supported_symbols \<Rightarrow>
          if 0 < length non_supported_symbols then
            (Raised (Exit (- 1)),
             emit (Log Error (UnsupportedSymbolsMsg non_supported_symbols)) st1)
          else trading_loop cfg symbols (cycles a) (load_orders cfg symbols st1))"

text \<open>
  \<^verbatim>\<open>@retry((RequestTimeout, NetworkError), tries=8, delay=15, backoff=2, logger=logger)\<close>
  of the \<^verbatim>\<open>retry\<close> package, around a function \<open>f\<close>: call \<open>f\<close>; when it raises one of
  the listed exceptions, count the try, re-raise if none is left, else log a warning,
  sleep \<open>delay\<close> seconds, multiply \<open>delay\<close> by \<open>backoff\<close> and call \<open>f\<close> again. Other
  exceptions pass through. Each call of \<open>f\<close> takes the next attempt of the script, and
  the attempts not used are returned.
\<close>

definition transient :: "exc \<Rightarrow> bool" where
  "transient e = (e = RequestTimeout \<or> e = NetworkError)"

fun retry_call ::
  "(attempt \<Rightarrow> state \<Rightarrow> outcome \<times> state) \<Rightarrow> nat \<Rightarrow> real \<Rightarrow> real \<Rightarrow> attempt list \<Rightarrow> state
     \<Rightarrow> outcome \<times> state \<times> attempt list" where
  "retry_call f 0 delay backoff as st = (Returned, st, as)"
| "retry_call f (Suc n) delay backoff [] st = (Running, st, [])"
| "retry_call f (Suc n) delay backoff (a # as) st =
     (case f a st of
        (Raised e, st') \<Rightarrow>
          if transient e then
            (if n = 0 then (Raised e, st', as)
             else retry_call f n (delay * backoff) backoff as
                    (emit (Sleep delay) (emit (Log Warning (RetryingMsg e delay)) st')))
          else (Raised e, st', as)
      | (out, st') \<Rightarrow> (out, st', as))"

text \<open>The program: \<^verbatim>\<open>typer.run(main)\<close> with the decorated \<^verbatim>\<open>main\<close>.\<close>

definition run ::
  "config \<Rightarrow> symbol list \<Rightarrow> attempt list \<Rightarrow> state \<Rightarrow> outcome \<times> state \<times> attempt list" where
  "run cfg symbols = retry_call (main cfg symbols) 8 15 2"

text \<open>
  The successive calls of \<open>f\<close> on these attempts, with the decorator's warning and sleep
  after each, all raise one of the listed exceptions.
\<close>

fun failing ::
  "(attempt \<Rightarrow> state \<Rightarrow> outcome \<times> state) \<Rightarrow> real \<Rightarrow> real \<Rightarrow> attempt list \<Rightarrow> state \<Rightarrow> bool" where
  "failing f delay backoff [] st = True"
| "failing f delay backoff (a # as) st =
     (case f a st of
        (Raised e, st') \<Rightarrow>
          transient e
          \<and> failing f (delay * backoff) backoff as
                (emit (Sleep delay) (emit (Log Warning (RetryingMsg e delay)) st'))
      | (out, st') \<Rightarrow> False)"

subsection \<open>Reading a trace\<close>

text \<open>The events that a step added to the trace.\<close>

definition new_events :: "state \<Rightarrow> state \<Rightarrow> event list" where
  "new_events st st' = drop (length (trace st)) (trace st')"

fun is_place_order :: "event \<Rightarrow> bool" where
  "is_place_order (PlaceOrder s p q d r) = True"
| "is_place_order ev = False"

fun is_save :: "event \<Rightarrow> bool" where
  "is_save (Save os) = True"
| "is_save ev = False"

fun is_start :: "event \<Rightarrow> bool" where
  "is_start (Log lv (StartingSessionMsg d)) = True"
| "is_start ev = False"

text \<open>The delays that the retry decorator announced, in order.\<close>

fun retry_delays :: "event list \<Rightarrow> real list" where
  "retry_delays [] = []"
| "retry_delays (Log lv (RetryingMsg e d) # evs) = d # retry_delays evs"
| "retry_delays (ev # evs) = retry_delays evs"

text \<open>The persisted store after these events, from what it was before them.\<close>

fun stored :: "orders \<Rightarrow> event list \<Rightarrow> orders" where
  "stored os [] = os"
| "stored os (Save os' # evs) = stored os' evs"
| "stored os (ev # evs) = stored os evs"

text \<open>
  The discipline of the store in a trace: every order that the exchange returned is
  followed at once by a save of a mapping that holds it under its symbol, and there is
  no other save.
\<close>

fun saves_ok :: "event list \<Rightarrow> bool" where
  "saves_ok [] = True"
| "saves_ok (PlaceOrder s p q d (Inr order) # Save os # evs) =
     (map_of os s = Some order \<and> saves_ok evs)"
| "saves_ok (PlaceOrder s p q d (Inr order) # evs) = False"
| "saves_ok (Save os # evs) = False"
| "saves_ok (ev # evs) = saves_ok evs"

text \<open>Events that are neither a save nor an order that the exchange returned.\<close>

fun plain :: "event \<Rightarrow> bool" where
  "plain (PlaceOrder s p q d (Inr order)) = False"
| "plain (Save os) = False"
| "plain ev = True"

text \<open>
  \<open>st'\<close> has the trace of \<open>st\<close> followed by events that all satisfy \<open>P\<close> and keep the
  discipline of the store, and its store is the one those events leave.
\<close>

definition extends :: "(event \<Rightarrow> bool) \<Rightarrow> state \<Rightarrow> state \<Rightarrow> bool" where
  "extends P st st' \<longleftrightarrow>
     (\<exists>evs. trace st' = trace st @ evs \<and> list_all P evs \<and> saves_ok evs
            \<and> store st' = stored (store st) evs)"

text \<open>
  The events of the body of \<^verbatim>\<open>main\<close> after its first line: every event but the start
  message and the warning of the retry decorator.
\<close>

fun inner :: "event \<Rightarrow> bool" where
  "inner (Log lv (RetryingMsg e d)) = False"
| "inner (Log lv (StartingSessionMsg d)) = False"
| "inner ev = True"

text \<open>
  The order that the exchange returned while this symbol was processed, if the dip
  detector asked for one and the exchange returned one.
\<close>

definition order_placed :: "config \<Rightarrow> answers \<Rightarrow> symbol \<Rightarrow> ticker \<Rightarrow> state \<Rightarrow> purchase option" where
  "order_placed cfg a symbol tk st =
     (case dip_flags cfg (clock a) (orders st) symbol tk of
        Inl e \<Rightarrow> None
      | Inr (buy_first_time, buy_again, d) \<Rightarrow>
          if buy_first_time \<or> buy_again then
            (case place_order_result a of Inl e \<Rightarrow> None | Inr order \<Rightarrow> Some order)
          else None)"

subsection \<open>Example values\<close>

text \<open>
  The scenario of the specification: \<^verbatim>\<open>BTC/USDT\<close> bought at 30000, the exchange's
  timestamp in milliseconds (2023-11-14 22:13:20 UTC); a first drop of 7 percent and a
  further drop of 2 percent trigger a buy. Clocks: one on UTC, and one on the time of
  New York in 2023, which is five hours behind UTC until 2023-03-12 07:00:00 UTC and
  four hours behind from then on.
\<close>

definition example_config :: config where
  "example_config =
     \<lparr>amount_usd = 50, freq = 10, min_drop = 7, min_additional_drop = 2, dry_run = False,
      reset_cache = False, retry_after = 5, bot_token = ''token'', chat_id = ''chat'',
      render = (\<lambda>msg. ''text'')\<rparr>"

definition utc_offset :: "int \<Rightarrow> int" where
  "utc_offset s = 0"

definition utc_at :: "int \<Rightarrow> local_clock" where
  "utc_at t = \<lparr>instant = t, utcoffset = utc_offset\<rparr>"



definition telegram_ok :: "string \<Rightarrow> exc + nat" where
  "telegram_ok url = Inr 200"

definition connection_fails :: "string \<Rightarrow> exc + nat" where
  "connection_fails url = Inl RequestException"

definition example_purchase :: purchase where
  "example_purchase = \<lparr>price = 30000, amount = 1 / 600, timestamp = PyInt 1700000000000\<rparr>"


definition example_state :: state where
  "example_state =
     \<lparr>orders = [(''BTC/USDT'', example_purchase)], store = [(''BTC/USDT'', example_purchase)],
      trace = []\<rparr>"

definition empty_state :: state where
  "empty_state = \<lparr>orders = [], store = [], trace = []\<rparr>"

text \<open>Ten hours after the purchase, the exchange is short of funds; the notification
  goes through, or its HTTP request raises.\<close>

definition funds_short :: "symbol \<Rightarrow> answers" where
  "funds_short symbol =
     \<lparr>clock = utc_at 1700036000000000, place_order_result = Inl InsufficientFunds,
      requests_get = telegram_ok\<rparr>"

definition three_days_later :: "symbol \<Rightarrow> answers" where
  "three_days_later symbol =
     \<lparr>clock = utc_at 1700259200000000, place_order_result = Inl InsufficientFunds,
      requests_get = telegram_ok\<rparr>"

definition funds_short_offline :: "symbol \<Rightarrow> answers" where
  "funds_short_offline symbol =
     \<lparr>clock = utc_at 1700036000000000, place_order_result = Inl InsufficientFunds,
      requests_get = connection_fails\<rparr>"

text \<open>Ten hours after the purchase, at 29000, the exchange fills the order; the
  notification goes through, or its HTTP request raises.\<close>

definition second_purchase :: purchase where
  "second_purchase = \<lparr>price = 29000, amount = 1 / 580, timestamp = PyInt 1700036000000\<rparr>"

definition order_filled :: "symbol \<Rightarrow> answers" where
  "order_filled symbol =
     \<lparr>clock = utc_at 1700036000000000, place_order_result = Inr second_purchase,
      requests_get = telegram_ok\<rparr>"


definition buy_cycle :: cycle where
  "buy_cycle =
     \<lparr>fetch_tickers_result = Inr [(''BTC/USDT'', \<lparr>last_price = 29000, percentage = 5\<rparr>)],
      answers_for = order_filled\<rparr>"

definition quiet_cycle :: cycle where
  "quiet_cycle =
     \<lparr>fetch_tickers_result = Inr [(''BTC/USDT'', \<lparr>last_price = 29500, percentage = 5\<rparr>)],
      answers_for = order_filled\<rparr>"



text \<open>
  Attempts and cycles in which the exchange cannot be reached: at the symbol check of
  the start-up, at the ticker fetch, and at the placing of an order.
\<close>

definition fetch_fails :: cycle where
  "fetch_fails = \<lparr>fetch_tickers_result = Inl NetworkError, answers_for = funds_short_offline\<rparr>"

definition order_times_out :: "symbol \<Rightarrow> answers" where
  "order_times_out symbol =
     \<lparr>clock = utc_at 1700036000000000, place_order_result = Inl RequestTimeout,
      requests_get = connection_fails\<rparr>"

definition timeout_cycle :: cycle where
  "timeout_cycle =
     \<lparr>fetch_tickers_result = Inr [(''BTC/USDT'', \<lparr>last_price = 29000, percentage = - 8\<rparr>)],
      answers_for = order_times_out\<rparr>"

definition exchange_offline :: attempt where
  "exchange_offline = \<lparr>unsupported_result = Inl NetworkError, cycles = []\<rparr>"

section \<open>Properties\<close>

subsection \<open>The text of a number\<close>

lemma digit_char_not_dot: "d < 10 \<Longrightarrow> digit_char d \<noteq> CHR ''.''"
proof -
  assume "d < 10"
  then have "d \<in> {0, 1, 2, 3, 4, 5, 6, 7, 8, 9}" by auto
  then show ?thesis by (auto simp: digit_char_def)
qed

lemma str_nat_digit: "n < 10 \<Longrightarrow> str_nat n = [digit_char n]"
  by (subst str_nat.simps) simp

lemma str_nat_more:
  "10 \<le> n \<Longrightarrow> str_nat n = str_nat (n div 10) @ [digit_char (n mod 10)]"
  by (subst str_nat.simps) simp

lemma str_nat_no_dot: "CHR ''.'' \<notin> set (str_nat n)"
proof (induction n rule: str_nat.induct)
  case (1 n)
  show ?case
  proof (cases "n < 10")
    case True
    then show ?thesis using digit_char_not_dot [of n] by (simp add: str_nat_digit)
  next
    case False
    have "n mod 10 < 10" by simp
    from digit_char_not_dot [OF this] 1 [OF False] False
    show ?thesis by (simp add: str_nat_more)
  qed
qed

lemma str_int_no_dot: "CHR ''.'' \<notin> set (str_int i)"
  by (simp add: str_int_def str_nat_no_dot)


subsection \<open>Rounding to a double\<close>

lemma pow2_powr: "pow2 e = 2 powr (real_of_int e)"
proof (cases "0 \<le> e")
  case True
  then have "2 powr (real_of_int e) = 2 powr (real (nat e))" by simp
  also have "\<dots> = 2 ^ nat e" by (rule powr_realpow) simp
  finally show ?thesis using True by (simp add: pow2_def)
next
  case False
  then have "2 powr (real_of_int e) = 2 powr (- real (nat (- e)))" by simp
  also have "\<dots> = 1 / 2 powr (real (nat (- e)))" by (simp add: powr_minus_divide)
  also have "2 powr (real (nat (- e))) = (2::real) ^ nat (- e)" by (rule powr_realpow) simp
  finally show ?thesis using False by (simp add: pow2_def)
qed

lemma float_exponent_eq:
  assumes "pow2 e \<le> \<bar>x\<bar>" and "\<bar>x\<bar> < pow2 (e + 1)" and "- 1022 \<le> e"
  shows "float_exponent x = e"
proof -
  have "(0::real) < 2 powr (real_of_int e)" by simp
  with assms(1) have pos: "0 < \<bar>x\<bar>" unfolding pow2_powr by linarith
  have "real_of_int e \<le> log 2 \<bar>x\<bar>"
    using assms(1) pos by (simp add: pow2_powr le_log_iff)
  moreover have "log 2 \<bar>x\<bar> < real_of_int (e + 1)"
    using assms(2) pos by (simp add: pow2_powr log_less_iff)
  ultimately have "\<lfloor>log 2 \<bar>x\<bar>\<rfloor> = e" by linarith
  with assms(3) show ?thesis by (simp add: float_exponent_def)
qed

text \<open>How a rounding is computed once the binade of \<open>x\<close> is known.\<close>

lemma round_float_eq:
  assumes "pow2 e \<le> \<bar>x\<bar>" and "\<bar>x\<bar> < pow2 (e + 1)" and "- 1022 \<le> e"
  shows "round_float x = real_of_int (round_half_even (x / pow2 (e - 52))) * pow2 (e - 52)"
proof -
  have "x \<noteq> 0" using assms(1) by (auto simp: pow2_powr)
  then show ?thesis by (simp add: round_float_def float_exponent_eq [OF assms] Let_def)
qed

text \<open>
  Line 136 at a last buy of 30000 and a price of 29000, 29500 and 29400: Python prints
  \<^verbatim>\<open>-3.3333333333333326\<close>, \<^verbatim>\<open>-1.6666666666666718\<close> and \<^verbatim>\<open>-2.0000000000000018\<close>. The last
  one is below \<open>-2\<close>, where the exact value is \<open>-2\<close>.
\<close>

lemma discount_29000: "fmul (fsub (fdiv 29000 30000) 1) 100 = - (7505999378950825 / 2251799813685248)"
proof -
  have q: "fdiv 29000 30000 = 8706959279582959 / 9007199254740992"
    using round_float_eq [of "-1" "29000 / 30000"]
    by (simp add: fdiv_def pow2_def round_half_even_def Let_def)
  have s: "fsub (8706959279582959 / 9007199254740992) 1 = - (300239975158033 / 9007199254740992)"
    using round_float_eq [of "-5" "8706959279582959 / 9007199254740992 - 1"]
    by (simp add: fsub_def pow2_def round_half_even_def Let_def)
  have m: "fmul (- (300239975158033 / 9007199254740992)) 100 = - (7505999378950825 / 2251799813685248)"
    using round_float_eq [of "1" "(- (300239975158033 / 9007199254740992)) * 100"]
    by (simp add: fmul_def pow2_def round_half_even_def Let_def)
  show ?thesis by (simp only: q s m)
qed

lemma discount_29500: "fmul (fsub (fdiv 29500 30000) 1) 100 = - (3752999689475425 / 2251799813685248)"
proof -
  have q: "fdiv 29500 30000 = 8857079267161975 / 9007199254740992"
    using round_float_eq [of "-1" "29500 / 30000"]
    by (simp add: fdiv_def pow2_def round_half_even_def Let_def)
  have s: "fsub (8857079267161975 / 9007199254740992) 1 = - (150119987579017 / 9007199254740992)"
    using round_float_eq [of "-6" "8857079267161975 / 9007199254740992 - 1"]
    by (simp add: fsub_def pow2_def round_half_even_def Let_def)
  have m: "fmul (- (150119987579017 / 9007199254740992)) 100 = - (3752999689475425 / 2251799813685248)"
    using round_float_eq [of "0" "(- (150119987579017 / 9007199254740992)) * 100"]
    by (simp add: fmul_def pow2_def round_half_even_def Let_def)
  show ?thesis by (simp only: q s m)
qed

lemma discount_29400: "fmul (fsub (fdiv 29400 30000) 1) 100 = - (1125899906842625 / 562949953421312)"
proof -
  have q: "fdiv 29400 30000 = 2206763817411543 / 2251799813685248"
    using round_float_eq [of "-1" "29400 / 30000"]
    by (simp add: fdiv_def pow2_def round_half_even_def Let_def)
  have s: "fsub (2206763817411543 / 2251799813685248) 1 = - (45035996273705 / 2251799813685248)"
    using round_float_eq [of "-6" "2206763817411543 / 2251799813685248 - 1"]
    by (simp add: fsub_def pow2_def round_half_even_def Let_def)
  have m: "fmul (- (45035996273705 / 2251799813685248)) 100 = - (1125899906842625 / 562949953421312)"
    using round_float_eq [of "1" "(- (45035996273705 / 2251799813685248)) * 100"]
    by (simp add: fmul_def pow2_def round_half_even_def Let_def)
  show ?thesis by (simp only: q s m)
qed

lemma sleep_seconds: "fmul 5 60 = 300" "fmul 10 60 = 600"
  using round_float_eq [of 8 "5 * 60"] round_float_eq [of 9 "10 * 60"]
  by (simp_all add: fmul_def pow2_def round_half_even_def Let_def)

subsection \<open>Steps of the loop body\<close>

lemma trace_emit [simp]: "trace (emit ev st) = trace st @ [ev]"
  and orders_emit [simp]: "orders (emit ev st) = orders st"
  and store_emit [simp]: "store (emit ev st) = store st"
  by (simp_all add: emit_def)

lemma new_events_app [simp]: "trace st' = trace st @ evs \<Longrightarrow> new_events st st' = evs"
  by (simp add: new_events_def)

lemma flags_in_window:
  assumes "map_of os symbol = Some r"
    and "bought_less_than_24h_ago now symbol os = Inr True"
    and "price r \<noteq> 0"
  shows "dip_flags cfg now os symbol tk =
           Inr (False,
                fmul (fsub (fdiv (last_price tk) (price r)) 1) 100 < - min_additional_drop cfg,
                Some (fmul (fsub (fdiv (last_price tk) (price r)) 1) 100))"
  using assms by (simp add: dip_flags_def Let_def)


lemma flags_first_time:
  assumes "map_of os symbol = None \<or> bought_less_than_24h_ago now symbol os = Inr False"
  shows "dip_flags cfg now os symbol tk = Inr (percentage tk < - min_drop cfg, False, None)"
  using assms by (auto simp: dip_flags_def)

lemma flags_exclusive:
  assumes "dip_flags cfg now os symbol tk = Inr (buy_first_time, buy_again, d)"
  shows "\<not> (buy_first_time \<and> buy_again)"
  using assms
  by (auto simp: dip_flags_def Let_def split: sum.splits bool.splits option.splits if_splits)

lemma process_no_buy:
  assumes "dip_flags cfg (clock a) (orders st) symbol tk = Inr (False, False, d)"
  shows "process_symbol cfg a symbol tk st =
           (None, emit (Log Debug (NotEnoughDiscountMsg symbol (last_price tk) (percentage tk))) st)"
  using assms by (simp add: process_symbol_def)

lemma process_buy:
  assumes "dip_flags cfg (clock a) (orders st) symbol tk = Inr (buy_first_time, buy_again, d)"
    and "buy_first_time \<or> buy_again"
  shows "process_symbol cfg a symbol tk st =
     (let st' = emit (PlaceOrder symbol (last_price tk) (amount_usd cfg) (dry_run cfg)
               (place_order_result a)) st in
      case place_order_result a of
        Inl e \<Rightarrow> if e = InsufficientFunds then insufficient_funds cfg a st' else (Some e, st')
      | Inr order \<Rightarrow> bought cfg a symbol tk buy_again d order st')"
  using assms by (simp add: process_symbol_def)

lemma send_msg_returns:
  assumes "get (telegram_url token chat msg) = Inr status"
  shows "send_msg get token chat msg st = (None, emit (HttpGet (telegram_url token chat msg)) st)"
  using assms by (simp add: send_msg_def Let_def)


lemma notify_returns:
  assumes "requests_get a (telegram_url (bot_token cfg) (chat_id cfg) (render cfg msg)) = Inr status"
  shows "notify cfg a msg st
           = (None, emit (HttpGet (telegram_url (bot_token cfg) (chat_id cfg) (render cfg msg))) st)"
  using assms by (simp add: notify_def send_msg_returns)


lemma notify_state [simp]:
  "trace (snd (notify cfg a msg st))
     = trace st @ [HttpGet (telegram_url (bot_token cfg) (chat_id cfg) (render cfg msg))]"
  "orders (snd (notify cfg a msg st)) = orders st"
  "store (snd (notify cfg a msg st)) = store st"
  by (simp_all add: notify_def send_msg_def Let_def split: sum.splits)



lemma insufficient_funds_state:
  "\<exists>evs. trace (snd (insufficient_funds cfg a st)) = trace st @ evs
         \<and> \<not> list_ex is_save evs \<and> \<not> list_ex is_place_order evs"
  "orders (snd (insufficient_funds cfg a st)) = orders st"
  "store (snd (insufficient_funds cfg a st)) = store st"
  by (simp_all add: insufficient_funds_def Let_def notify_def send_msg_def split: sum.splits)

lemma bought_state:
  "\<exists>evs. trace (snd (bought cfg a symbol tk buy_again d order st))
           = trace st @ Save (AList.update symbol order (orders st)) # evs
         \<and> \<not> list_ex is_place_order evs"
  "orders (snd (bought cfg a symbol tk buy_again d order st))
     = AList.update symbol order (orders st)"
  "store (snd (bought cfg a symbol tk buy_again d order st))
     = AList.update symbol order (orders st)"
  by (simp_all add: bought_def Let_def notify_def send_msg_def save_def
      split: sum.splits option.splits)


lemma process_symbol_success:
  assumes "order_placed cfg a symbol tk st = Some order"
  shows "\<exists>evs. trace (snd (process_symbol cfg a symbol tk st))
           = trace st @ PlaceOrder symbol (last_price tk) (amount_usd cfg) (dry_run cfg)
               (place_order_result a)
               # Save (AList.update symbol order (orders st)) # evs"
    and "orders (snd (process_symbol cfg a symbol tk st)) = AList.update symbol order (orders st)"
    and "store (snd (process_symbol cfg a symbol tk st)) = AList.update symbol order (orders st)"
proof -
  from assms obtain f ag d where
    flags: "dip_flags cfg (clock a) (orders st) symbol tk = Inr (f, ag, d)"
    and trig: "f \<or> ag" and ok: "place_order_result a = Inr order"
    by (auto simp: order_placed_def split: sum.splits if_splits)
  let ?st = "emit (PlaceOrder symbol (last_price tk) (amount_usd cfg) (dry_run cfg)
               (place_order_result a)) st"
  have eq: "process_symbol cfg a symbol tk st = bought cfg a symbol tk ag d order ?st"
    using flags trig ok by (simp add: process_buy)
  from bought_state(1) [of cfg a symbol tk ag d order ?st]
  show "\<exists>evs. trace (snd (process_symbol cfg a symbol tk st))
           = trace st @ PlaceOrder symbol (last_price tk) (amount_usd cfg) (dry_run cfg)
               (place_order_result a)
               # Save (AList.update symbol order (orders st)) # evs"
    by (auto simp: eq)
  show "orders (snd (process_symbol cfg a symbol tk st)) = AList.update symbol order (orders st)"
    by (simp add: eq bought_state)
  show "store (snd (process_symbol cfg a symbol tk st)) = AList.update symbol order (orders st)"
    by (simp add: eq bought_state)
qed

lemma process_symbol_no_order:
  assumes "order_placed cfg a symbol tk st = None"
  shows "\<exists>evs. trace (snd (process_symbol cfg a symbol tk st)) = trace st @ evs
           \<and> \<not> list_ex is_save evs"
    and "orders (snd (process_symbol cfg a symbol tk st)) = orders st"
    and "store (snd (process_symbol cfg a symbol tk st)) = store st"
proof -
  let ?st = "emit (PlaceOrder symbol (last_price tk) (amount_usd cfg) (dry_run cfg)
               (place_order_result a)) st"
  let ?res = "snd (process_symbol cfg a symbol tk st)"
  have "(\<exists>evs. trace ?res = trace st @ evs \<and> \<not> list_ex is_save evs)
             \<and> orders ?res = orders st \<and> store ?res = store st"
  proof (cases "dip_flags cfg (clock a) (orders st) symbol tk")
    case (Inl e)
    then show ?thesis by (simp add: process_symbol_def)
  next
    case (Inr t)
    obtain f ag d where t: "t = (f, ag, d)" by (cases t) auto
    show ?thesis
    proof (cases "f \<or> ag")
      case False
      with Inr t show ?thesis by (simp add: process_no_buy)
    next
      case True
      with assms Inr t obtain e where e: "place_order_result a = Inl e"
        by (cases "place_order_result a") (auto simp: order_placed_def)
      show ?thesis
      proof (cases "e = InsufficientFunds")
        case True
        with Inr t \<open>f \<or> ag\<close> e
        have eq: "process_symbol cfg a symbol tk st = insufficient_funds cfg a ?st"
          by (simp add: process_buy)
        from insufficient_funds_state(1) [of cfg a ?st] show ?thesis
          by (auto simp: eq insufficient_funds_state)
      next
        case False
        with Inr t \<open>f \<or> ag\<close> e show ?thesis by (simp add: process_buy)
      qed
    qed
  qed
  then show "\<exists>evs. trace ?res = trace st @ evs \<and> \<not> list_ex is_save evs"
    and "orders ?res = orders st" and "store ?res = store st"
    by simp_all
qed

lemma process_symbol_places:
  "\<exists>evs. trace (snd (process_symbol cfg a symbol tk st)) = trace st @ evs
         \<and> (list_ex is_place_order evs \<longleftrightarrow>
              (case dip_flags cfg (clock a) (orders st) symbol tk of
                 Inl e \<Rightarrow> False
               | Inr (buy_first_time, buy_again, d) \<Rightarrow> buy_first_time \<or> buy_again))"
proof (cases "dip_flags cfg (clock a) (orders st) symbol tk")
  case (Inl e)
  then show ?thesis by (simp add: process_symbol_def)
next
  case (Inr t)
  obtain f ag d where t: "t = (f, ag, d)" by (cases t) auto
  let ?st = "emit (PlaceOrder symbol (last_price tk) (amount_usd cfg) (dry_run cfg)
               (place_order_result a)) st"
  show ?thesis
  proof (cases "f \<or> ag")
    case False
    with Inr t show ?thesis by (simp add: process_no_buy)
  next
    case True
    show ?thesis
    proof (cases "place_order_result a")
      case (Inl e)
      show ?thesis
      proof (cases "e = InsufficientFunds")
        case True
        with Inr t \<open>f \<or> ag\<close> Inl
        have eq: "process_symbol cfg a symbol tk st = insufficient_funds cfg a ?st"
          by (simp add: process_buy)
        from insufficient_funds_state(1) [of cfg a ?st] Inr t \<open>f \<or> ag\<close> show ?thesis
          by (auto simp: eq)
      next
        case False
        with Inr t \<open>f \<or> ag\<close> Inl show ?thesis by (simp add: process_buy)
      qed
    next
      case (Inr order)
      with \<open>dip_flags cfg (clock a) (orders st) symbol tk = Inr t\<close> t \<open>f \<or> ag\<close>
      have eq: "process_symbol cfg a symbol tk st = bought cfg a symbol tk ag d order ?st"
        by (simp add: process_buy)
      from bought_state(1) [of cfg a symbol tk ag d order ?st]
        \<open>dip_flags cfg (clock a) (orders st) symbol tk = Inr t\<close> t \<open>f \<or> ag\<close>
      show ?thesis by (auto simp: eq)
    qed
  qed
qed

subsection \<open>Traces that keep the discipline of the store\<close>

lemma saves_ok_append: "saves_ok xs \<Longrightarrow> saves_ok ys \<Longrightarrow> saves_ok (xs @ ys)"
  by (induction xs rule: saves_ok.induct) simp_all

lemma stored_append: "stored os (xs @ ys) = stored (stored os xs) ys"
  by (induction os xs rule: stored.induct) simp_all

lemma plain_saves_ok: "list_all plain evs \<Longrightarrow> saves_ok evs"
  by (induction evs rule: saves_ok.induct) simp_all

lemma plain_stored: "list_all plain evs \<Longrightarrow> stored os evs = os"
  by (induction os evs rule: stored.induct) simp_all

lemma extends_refl [simp]: "extends P st st"
  by (simp add: extends_def)

lemma extends_trans: "extends P st st' \<Longrightarrow> extends P st' st'' \<Longrightarrow> extends P st st''"
  by (auto simp: extends_def saves_ok_append stored_append)

lemma extends_emit:
  assumes "P ev" and "plain ev" and "extends P st st'"
  shows "extends P st (emit ev st')"
proof -
  from assms(3) obtain evs where evs: "trace st' = trace st @ evs" "list_all P evs"
    "saves_ok evs" "store st' = stored (store st) evs"
    by (auto simp: extends_def)
  have one: "saves_ok [ev]" "stored (store st') [ev] = store st'"
    using assms(2) by (simp_all add: plain_saves_ok plain_stored)
  have "trace (emit ev st') = trace st @ (evs @ [ev])" using evs(1) by simp
  moreover have "list_all P (evs @ [ev])" using evs(2) assms(1) by simp
  moreover have "saves_ok (evs @ [ev])" using evs(3) one(1) by (rule saves_ok_append)
  moreover have "store (emit ev st') = stored (store st) (evs @ [ev])"
    using evs(4) one(2) by (simp add: stored_append)
  ultimately show ?thesis unfolding extends_def by blast
qed

lemma extends_same:
  "trace st'' = trace st' \<Longrightarrow> store st'' = store st' \<Longrightarrow> extends P st st'
     \<Longrightarrow> extends P st st''"
  by (simp add: extends_def)

lemma extends_order:
  assumes "extends P st0 st"
    and "P (PlaceOrder s p q d (Inr order))" and "P (Save os)"
    and "map_of os s = Some order"
    and "trace st' = trace st @ [PlaceOrder s p q d (Inr order), Save os]"
    and "store st' = os"
  shows "extends P st0 st'"
proof -
  from assms(1) obtain evs where evs: "trace st = trace st0 @ evs" "list_all P evs"
    "saves_ok evs" "store st = stored (store st0) evs"
    by (auto simp: extends_def)
  let ?two = "[PlaceOrder s p q d (Inr order), Save os]"
  have two: "saves_ok ?two" using assms(4) by simp
  have "trace st' = trace st0 @ (evs @ ?two)" using evs(1) assms(5) by simp
  moreover have "list_all P (evs @ ?two)" using evs(2) assms(2,3) by simp
  moreover have "saves_ok (evs @ ?two)" using evs(3) two by (rule saves_ok_append)
  moreover have "store st' = stored (store st0) (evs @ ?two)"
    using assms(6) by (simp add: stored_append)
  ultimately show ?thesis unfolding extends_def by blast
qed

lemma extends_mono:
  assumes "\<And>ev. P ev \<Longrightarrow> Q ev" and "extends P st st'"
  shows "extends Q st st'"
  using assms unfolding extends_def list_all_iff by blast

lemma extends_new_events:
  assumes "extends P st st'"
  shows "list_all P (new_events st st')" and "saves_ok (new_events st st')"
    and "store st' = stored (store st) (new_events st st')"
  using assms by (auto simp: extends_def)

subsection \<open>The events of each part of \<^verbatim>\<open>main\<close>\<close>

lemma inner_notify: "extends inner st0 st \<Longrightarrow> extends inner st0 (snd (notify cfg a msg st))"
  by (auto simp: notify_def send_msg_def Let_def split: sum.splits intro!: extends_emit)

lemma inner_insufficient_funds:
  assumes "extends inner st0 st"
  shows "extends inner st0 (snd (insufficient_funds cfg a st))"
proof -
  let ?msg = "InsufficientFundsMsg (retry_after cfg)"
  let ?st1 = "emit (Log Warning ?msg) st"
  have 1: "extends inner st0 ?st1" by (rule extends_emit [OF _ _ assms]) simp_all
  have 2: "extends inner st0 (snd (notify cfg a ?msg ?st1))" using 1 by (rule inner_notify)
  show ?thesis
  proof (cases "notify cfg a ?msg ?st1")
    case (Pair out st')
    with 2 have st': "extends inner st0 st'" by simp
    have "extends inner st0 (emit (Sleep (fmul (retry_after cfg) 60)) st')"
      by (rule extends_emit [OF _ _ st']) simp_all
    with Pair st' show ?thesis
      by (cases out) (simp_all add: insufficient_funds_def Let_def)
  qed
qed

lemma inner_bought:
  assumes "extends inner st0 st"
  shows "extends inner st0
           (snd (bought cfg a symbol tk buy_again d order
                   (emit (PlaceOrder symbol p q dr (Inr order)) st)))"
proof -
  let ?st1 = "emit (PlaceOrder symbol p q dr (Inr order)) st"
  let ?os = "AList.update symbol order (orders st)"
  let ?st' = "save ?os (?st1\<lparr>orders := ?os\<rparr>)"
  have saved: "extends inner st0 ?st'"
    by (rule extends_order [OF assms, where s = symbol and order = order and os = ?os])
       (simp_all add: save_def update_conv')
  have logged: "extends inner st0 (snd (notify cfg a msg (emit (Log Info msg) ?st')))"
    if "inner (Log Info msg)" for msg
    by (rule inner_notify, rule extends_emit [OF that _ saved]) simp
  show ?thesis
  proof (cases buy_again)
    case False
    with logged [of "BuyFirstTimeMsg symbol (last_price tk) (percentage tk)"]
    show ?thesis by (simp add: bought_def Let_def)
  next
    case True
    show ?thesis
    proof (cases d)
      case None
      with True saved show ?thesis by (simp add: bought_def Let_def)
    next
      case (Some x)
      with True logged [of "BuyAgainMsg symbol (last_price tk) x"]
      show ?thesis by (simp add: bought_def Let_def)
    qed
  qed
qed

lemma inner_process_symbol:
  assumes "extends inner st0 st"
  shows "extends inner st0 (snd (process_symbol cfg a symbol tk st))"
proof (cases "dip_flags cfg (clock a) (orders st) symbol tk")
  case (Inl e)
  with assms show ?thesis by (simp add: process_symbol_def)
next
  case (Inr t)
  obtain f ag d where t: "t = (f, ag, d)" by (cases t) auto
  let ?st = "emit (PlaceOrder symbol (last_price tk) (amount_usd cfg) (dry_run cfg)
                     (place_order_result a)) st"
  show ?thesis
  proof (cases "f \<or> ag")
    case False
    have "extends inner st0
            (emit (Log Debug (NotEnoughDiscountMsg symbol (last_price tk) (percentage tk))) st)"
      by (rule extends_emit [OF _ _ assms]) simp_all
    with False Inr t show ?thesis by (simp add: process_no_buy)
  next
    case True
    note buy = process_buy [OF Inr [unfolded t] True]
    show ?thesis
    proof (cases "place_order_result a")
      case (Inl e)
      have placed: "extends inner st0 ?st"
        by (rule extends_emit [OF _ _ assms]) (simp_all add: Inl)
      with Inl inner_insufficient_funds [OF placed, of cfg a] show ?thesis
        by (auto simp: buy Let_def)
    next
      case (Inr order)
      with inner_bought [OF assms, of cfg a symbol tk ag d order "last_price tk"
          "amount_usd cfg" "dry_run cfg"]
      show ?thesis by (simp add: buy Let_def)
    qed
  qed
qed

lemma inner_for_tickers:
  "extends inner st0 st \<Longrightarrow> extends inner st0 (snd (for_tickers cfg ans tks st))"
proof (induction tks arbitrary: st)
  case Nil
  then show ?case by simp
next
  case (Cons p tks)
  obtain symbol tk where p: "p = (symbol, tk)" by (cases p)
  obtain out st' where step: "process_symbol cfg (ans symbol) symbol tk st = (out, st')"
    by (cases "process_symbol cfg (ans symbol) symbol tk st")
  from inner_process_symbol [OF Cons.prems, of cfg "ans symbol" symbol tk] step
  have ext: "extends inner st0 st'" by simp
  show ?case
  proof (cases out)
    case None
    with p step Cons.IH [OF ext] show ?thesis by simp
  next
    case (Some e)
    with p step ext show ?thesis by simp
  qed
qed

lemma inner_trading_loop:
  "extends inner st0 st \<Longrightarrow> extends inner st0 (snd (trading_loop cfg symbols cs st))"
proof (induction cs arbitrary: st)
  case Nil
  then show ?case by simp
next
  case (Cons c cs)
  let ?st1 = "emit (FetchTickers symbols) st"
  have fetched: "extends inner st0 ?st1"
    by (rule extends_emit [OF _ _ Cons.prems]) simp_all
  show ?case
  proof (cases "fetch_tickers_result c")
    case (Inl e)
    with fetched show ?thesis by (simp add: Let_def)
  next
    case (Inr tickers)
    obtain out st2 where loop: "for_tickers cfg (answers_for c) tickers ?st1 = (out, st2)"
      by (cases "for_tickers cfg (answers_for c) tickers ?st1")
    from inner_for_tickers [OF fetched, of cfg "answers_for c" tickers] loop
    have ext: "extends inner st0 st2" by simp
    show ?thesis
    proof (cases out)
      case (Some e)
      with Inr loop ext show ?thesis by (simp add: Let_def)
    next
      case None
      have "extends inner st0 (emit (Log Info (CheckingAgainMsg (freq cfg))) st2)"
        by (rule extends_emit [OF _ _ ext]) simp_all
      then have "extends inner st0
              (emit (Sleep (fmul (freq cfg) 60))
                 (emit (Log Info (CheckingAgainMsg (freq cfg))) st2))"
        by (rule extends_emit [rotated 2]) simp_all
      from Cons.IH [OF this] Inr loop None show ?thesis by (simp add: Let_def)
    qed
  qed
qed

lemma log_lines_state:
  "store (foldl (\<lambda>s (key, v). emit (Log Info (BoughtMsg key (amount v) (price v))) s) st os)
     = store st"
  "orders (foldl (\<lambda>s (key, v). emit (Log Info (BoughtMsg key (amount v) (price v))) s) st os)
     = orders st"
  by (induction os arbitrary: st) (auto simp: case_prod_beta)

lemma inner_log_lines:
  "extends inner st0 st \<Longrightarrow>
    extends inner st0
      (foldl (\<lambda>s (key, v). emit (Log Info (BoughtMsg key (amount v) (price v))) s) st os)"
proof (induction os arbitrary: st)
  case Nil
  then show ?case by simp
next
  case (Cons kv os)
  have "extends inner st0
      (emit (Log Info (BoughtMsg (fst kv) (amount (snd kv)) (price (snd kv)))) st)"
    by (rule extends_emit [OF _ _ Cons.prems]) simp_all
  from Cons.IH [OF this] show ?case by (simp add: case_prod_beta)
qed

lemma log_previous_state [simp]:
  "store (log_previous os st) = store st"
  "orders (log_previous os st) = orders st"
  by (simp_all add: log_previous_def log_lines_state)

lemma inner_log_previous:
  assumes "extends inner st0 st"
  shows "extends inner st0 (log_previous os st)"
proof (cases "os = []")
  case True
  with assms show ?thesis by (simp add: log_previous_def)
next
  case False
  have "extends inner st0 (emit (Log Info PreviouslyBoughtMsg) st)"
    by (rule extends_emit [OF _ _ assms]) simp_all
  from inner_log_lines [OF this, of os] False show ?thesis by (simp add: log_previous_def)
qed

lemma load_orders_state [simp]:
  "store (load_orders cfg symbols st) = store st"
  "orders (load_orders cfg symbols st) = (if reset_cache cfg then [] else store st)"
  by (simp_all add: load_orders_def get_orders_def Let_def)

lemma inner_load_orders:
  assumes "extends inner st0 st"
  shows "extends inner st0 (load_orders cfg symbols st)"
proof -
  define os where "os = (if reset_cache cfg then [] else store st)"
  define st2 where "st2 = (if reset_cache cfg then st else emit GetOrders st)"
  have "extends inner st0 (emit GetOrders st)"
    by (rule extends_emit [OF _ _ assms]) simp_all
  with assms have st2: "extends inner st0 st2" by (simp add: st2_def)
  have st2': "extends inner st0 (st2\<lparr>orders := os\<rparr>)"
    using st2 by (rule extends_same [rotated 2]) simp_all
  have "extends inner st0
          (log_previous os
            (emit (Log Info RunVerboseMsg)
              (emit (Log Info (AdditionalDropLevelMsg (min_additional_drop cfg)))
                (emit (Log Info (MinDropLevelMsg (min_drop cfg)))
                  (emit (Log Info (TrackingMsg symbols)) (st2\<lparr>orders := os\<rparr>))))))"
    by (rule inner_log_previous, (rule extends_emit, simp, simp)+, rule st2')
  then show ?thesis
    by (cases "reset_cache cfg") (simp_all add: load_orders_def get_orders_def Let_def os_def st2_def)
qed

lemma inner_main:
  "extends inner (emit (Log Info (StartingSessionMsg (dry_run cfg))) st)
     (snd (main cfg symbols att st))"
proof -
  let ?st0 = "emit (Log Info (StartingSessionMsg (dry_run cfg))) st"
  let ?st1 = "check_symbols cfg symbols st"
  have st1: "extends inner ?st0 ?st1"
    unfolding check_symbols_def by (rule extends_emit) simp_all
  show ?thesis
  proof (cases "unsupported_result att")
    case (Inl e)
    with st1 show ?thesis by (simp add: main_def)
  next
    case (Inr non_supported)
    show ?thesis
    proof (cases "non_supported = []")
      case False
      have "extends inner ?st0 (emit (Log Error (UnsupportedSymbolsMsg non_supported)) ?st1)"
        by (rule extends_emit [OF _ _ st1]) simp_all
      with Inr False show ?thesis by (simp add: main_def)
    next
      case True
      from inner_trading_loop [OF inner_load_orders [OF st1], of cfg symbols "cycles att"
          cfg symbols]
      show ?thesis using Inr True by (simp add: main_def)
    qed
  qed
qed

lemma main_events:
  "\<exists>evs. trace (snd (main cfg symbols att st))
           = trace st @ Log Info (StartingSessionMsg (dry_run cfg)) # evs
         \<and> list_all inner evs \<and> saves_ok evs
         \<and> store (snd (main cfg symbols att st)) = stored (store st) evs"
  using inner_main [of cfg st symbols att] by (auto simp: extends_def)

lemma process_symbol_distinct:
  assumes "distinct (map fst (orders st))"
  shows "distinct (map fst (orders (snd (process_symbol cfg a symbol tk st))))"
proof (cases "order_placed cfg a symbol tk st")
  case None
  then show ?thesis using assms by (simp add: process_symbol_no_order)
next
  case (Some order)
  then show ?thesis using assms by (simp add: process_symbol_success distinct_update)
qed

lemma for_tickers_distinct:
  "distinct (map fst (orders st)) \<Longrightarrow>
     distinct (map fst (orders (snd (for_tickers cfg ans tks st))))"
proof (induction tks arbitrary: st)
  case Nil
  then show ?case by simp
next
  case (Cons p tks)
  obtain symbol tk where p: "p = (symbol, tk)" by (cases p)
  obtain out st' where step: "process_symbol cfg (ans symbol) symbol tk st = (out, st')"
    by (cases "process_symbol cfg (ans symbol) symbol tk st")
  from process_symbol_distinct [OF Cons.prems, of cfg "ans symbol" symbol tk] step
  have d: "distinct (map fst (orders st'))" by simp
  show ?case
  proof (cases out)
    case None
    with p step Cons.IH [OF d] show ?thesis by simp
  next
    case (Some e)
    with p step d show ?thesis by simp
  qed
qed

subsection \<open>The claims about one symbol\<close>

lemma to_local_utc [simp]: "to_local (utc_at t) us = us"
  by (simp add: to_local_def utc_at_def utc_offset_def)

lemma datetime_now_utc [simp]: "datetime_now (utc_at t) = t"
  by (simp add: datetime_now_def) (simp add: utc_at_def)

lemma example_micros:
  "timestamp_micros (normalize_timestamp (timestamp example_purchase)) = 1700000000000000"
proof -
  have n: "normalize_timestamp (timestamp example_purchase) = 1700000000"
    by (simp add: example_purchase_def normalize_timestamp_def str_int_no_dot)
  have r: "round_float 1700000000 = 1700000000"
    using round_float_eq [of 30 1700000000]
    by (simp add: pow2_def round_half_even_def Let_def)
  have z: "round_float 0 = 0" by (simp add: round_float_def)
  show ?thesis
    by (simp add: n timestamp_micros_def r z Let_def round_half_even_def)
qed

lemma example_bought_on:
  "fromtimestamp (utc_at now) (normalize_timestamp (timestamp example_purchase))
     = Inr 1700000000000000"
  by (simp add: fromtimestamp_def example_micros Let_def)

lemma example_window:
  "bought_less_than_24h_ago (utc_at now) ''BTC/USDT'' (orders example_state)
     = Inr ((now - 1700000000000000) div 86400000000 \<le> 1)"
  by (simp add: bought_less_than_24h_ago_def example_state_def example_bought_on
      timedelta_days_def)

lemma example_flags:
  "dip_flags example_config (utc_at now) (orders example_state) ''BTC/USDT'' tk =
     (if (now - 1700000000000000) div 86400000000 \<le> 1
      then Inr (False, fmul (fsub (fdiv (last_price tk) 30000) 1) 100 < - 2,
                Some (fmul (fsub (fdiv (last_price tk) 30000) 1) 100))
      else Inr (percentage tk < - 7, False, None))"
  by (simp add: dip_flags_def example_window)
     (simp add: example_state_def example_purchase_def example_config_def Let_def)

text \<open>
  C1. A symbol with a record in \<open>orders\<close> for which \<^verbatim>\<open>bought_less_than_24h_ago\<close> is true
  (the record's price not being zero, as for every Purchase Record): \<open>buy_first_time\<close> is
  false and \<open>buy_again\<close> is \<open>(last / price - 1) * 100 < - min_additional_drop\<close>, the left
  side evaluated as line 136 evaluates it, in floating point; an order is asked from the
  exchange exactly then; and the 24h percentage of the ticker does not enter the
  decision.
\<close>

theorem buy_again_rule:
  assumes "map_of (orders st) symbol = Some r"
    and "bought_less_than_24h_ago (clock a) symbol (orders st) = Inr True"
    and "price r \<noteq> 0"
  shows "(let discount_pct = fmul (fsub (fdiv (last_price tk) (price r)) 1) 100 in
          dip_flags cfg (clock a) (orders st) symbol tk
            = Inr (False, discount_pct < - min_additional_drop cfg, Some discount_pct)
          \<and> (list_ex is_place_order (new_events st (snd (process_symbol cfg a symbol tk st)))
               \<longleftrightarrow> discount_pct < - min_additional_drop cfg))
       \<and> dip_flags cfg (clock a) (orders st) symbol (tk\<lparr>percentage := p\<rparr>)
           = dip_flags cfg (clock a) (orders st) symbol tk"
proof -
  note flags = flags_in_window [OF assms, of cfg]
  from process_symbol_places [of cfg a symbol tk st] obtain evs where
    "trace (snd (process_symbol cfg a symbol tk st)) = trace st @ evs"
    "list_ex is_place_order evs
       \<longleftrightarrow> fmul (fsub (fdiv (last_price tk) (price r)) 1) 100 < - min_additional_drop cfg"
    by (auto simp: flags)
  then show ?thesis by (simp add: flags Let_def)
qed

theorem buy_again_rule_witness:
  "map_of (orders example_state) ''BTC/USDT'' = Some example_purchase
   \<and> bought_less_than_24h_ago (utc_at 1700036000000000) ''BTC/USDT''
        (orders example_state) = Inr True
   \<and> price example_purchase \<noteq> 0
   \<and> dip_flags example_config (utc_at 1700036000000000) (orders example_state)
        ''BTC/USDT'' \<lparr>last_price = 29000, percentage = 5\<rparr>
      = Inr (False, True, Some (- (7505999378950825 / 2251799813685248)))
   \<and> dip_flags example_config (utc_at 1700036000000000) (orders example_state)
        ''BTC/USDT'' \<lparr>last_price = 29500, percentage = - 9\<rparr>
      = Inr (False, False, Some (- (3752999689475425 / 2251799813685248)))
   \<and> dip_flags example_config (utc_at 1700036000000000) (orders example_state)
        ''BTC/USDT'' \<lparr>last_price = 29400, percentage = - 9\<rparr>
      = Inr (False, True, Some (- (1125899906842625 / 562949953421312)))"
proof -
  let ?a = "funds_short ''BTC/USDT''"
  have c: "clock ?a = utc_at 1700036000000000" by (simp add: funds_short_def)
  have h1: "map_of (orders example_state) ''BTC/USDT'' = Some example_purchase"
    by (simp add: example_state_def)
  have h2: "bought_less_than_24h_ago (clock ?a) ''BTC/USDT'' (orders example_state) = Inr True"
    by (simp add: c example_window)
  have h3: "price example_purchase \<noteq> 0"
    by (simp add: example_purchase_def)
  have p: "price example_purchase = 30000" "min_additional_drop example_config = 2"
    by (simp_all add: example_purchase_def example_config_def)
  from buy_again_rule [OF h1 h2 h3, of "\<lparr>last_price = 29000, percentage = 5\<rparr>" example_config]
    buy_again_rule [OF h1 h2 h3, of "\<lparr>last_price = 29500, percentage = - 9\<rparr>" example_config]
    buy_again_rule [OF h1 h2 h3, of "\<lparr>last_price = 29400, percentage = - 9\<rparr>" example_config]
    h1 h2 h3
  show ?thesis
    by (simp add: c Let_def p discount_29000 discount_29500 discount_29400)
qed

text \<open>
  C2. A symbol with no record in \<open>orders\<close>: \<open>buy_again\<close> is false and \<open>buy_first_time\<close> is
  \<open>percentage < - min_drop\<close>; an order is asked from the exchange exactly then.
\<close>

theorem first_time_rule:
  assumes "map_of (orders st) symbol = None"
  shows "dip_flags cfg (clock a) (orders st) symbol tk
           = Inr (percentage tk < - min_drop cfg, False, None)
       \<and> (list_ex is_place_order (new_events st (snd (process_symbol cfg a symbol tk st)))
            \<longleftrightarrow> percentage tk < - min_drop cfg)"
proof -
  have flags: "dip_flags cfg (clock a) (orders st) symbol tk
                 = Inr (percentage tk < - min_drop cfg, False, None)"
    using assms by (simp add: flags_first_time)
  from process_symbol_places [of cfg a symbol tk st] obtain evs where
    "trace (snd (process_symbol cfg a symbol tk st)) = trace st @ evs"
    "list_ex is_place_order evs \<longleftrightarrow> percentage tk < - min_drop cfg"
    by (auto simp: flags)
  then show ?thesis by (simp add: flags)
qed

theorem first_time_rule_witness:
  "map_of (orders empty_state) ''BTC/USDT'' = None
   \<and> dip_flags example_config (utc_at 1700036000000000) (orders empty_state) ''BTC/USDT''
        \<lparr>last_price = 29000, percentage = - 8\<rparr> = Inr (True, False, None)
   \<and> dip_flags example_config (utc_at 1700036000000000) (orders empty_state) ''BTC/USDT''
        \<lparr>last_price = 29000, percentage = - 7\<rparr> = Inr (False, False, None)"
proof -
  have h: "map_of (orders empty_state) ''BTC/USDT'' = None"
    by (simp add: empty_state_def)
  let ?a = "funds_short ''BTC/USDT''"
  have c: "clock ?a = utc_at 1700036000000000" by (simp add: funds_short_def)
  from first_time_rule [OF h, of example_config ?a "\<lparr>last_price = 29000, percentage = - 8\<rparr>"]
    first_time_rule [OF h, of example_config ?a "\<lparr>last_price = 29000, percentage = - 7\<rparr>"] h
  show ?thesis by (simp add: c example_config_def)
qed

text \<open>
  C3. A symbol with a record for which \<^verbatim>\<open>bought_less_than_24h_ago\<close> is false gets the
  decision of a symbol with no record at all (in any \<open>orders\<close>, at any time): the
  first-time rule on the 24h percentage, whatever the last price and the additional drop.
\<close>

theorem stale_record_as_never_bought:
  assumes "map_of (orders st) symbol = Some r"
    and "bought_less_than_24h_ago (clock a) symbol (orders st) = Inr False"
    and "map_of os' symbol = None"
  shows "dip_flags cfg (clock a) (orders st) symbol tk = dip_flags cfg now' os' symbol tk
       \<and> dip_flags cfg (clock a) (orders st) symbol tk
           = Inr (percentage tk < - min_drop cfg, False, None)
       \<and> (list_ex is_place_order (new_events st (snd (process_symbol cfg a symbol tk st)))
            \<longleftrightarrow> percentage tk < - min_drop cfg)"
proof -
  have flags: "dip_flags cfg (clock a) (orders st) symbol tk
                 = Inr (percentage tk < - min_drop cfg, False, None)"
    using assms(2) by (simp add: flags_first_time)
  have never: "dip_flags cfg now' os' symbol tk
                 = Inr (percentage tk < - min_drop cfg, False, None)"
    using assms(3) by (simp add: flags_first_time)
  from process_symbol_places [of cfg a symbol tk st] obtain evs where
    "trace (snd (process_symbol cfg a symbol tk st)) = trace st @ evs"
    "list_ex is_place_order evs \<longleftrightarrow> percentage tk < - min_drop cfg"
    by (auto simp: flags)
  then show ?thesis by (simp add: flags never)
qed

theorem stale_record_as_never_bought_witness:
  "map_of (orders example_state) ''BTC/USDT'' = Some example_purchase
   \<and> bought_less_than_24h_ago (utc_at 1700259200000000) ''BTC/USDT''
        (orders example_state) = Inr False
   \<and> map_of [] ''BTC/USDT'' = (None :: purchase option)
   \<and> dip_flags example_config (utc_at 1700259200000000) (orders example_state)
        ''BTC/USDT'' \<lparr>last_price = 20000, percentage = - 3\<rparr> = Inr (False, False, None)
   \<and> dip_flags example_config (utc_at 1700259200000000) (orders example_state)
        ''BTC/USDT'' \<lparr>last_price = 31000, percentage = - 8\<rparr> = Inr (True, False, None)"
proof -
  let ?a = "three_days_later ''BTC/USDT''"
  have c: "clock ?a = utc_at 1700259200000000" by (simp add: three_days_later_def)
  have h1: "map_of (orders example_state) ''BTC/USDT'' = Some example_purchase"
    by (simp add: example_state_def)
  have h2: "bought_less_than_24h_ago (clock ?a) ''BTC/USDT'' (orders example_state) = Inr False"
    by (simp add: c example_window)
  have h3: "map_of [] ''BTC/USDT'' = (None :: purchase option)"
    by simp
  from stale_record_as_never_bought [OF h1 h2 h3,
      of example_config "\<lparr>last_price = 20000, percentage = - 3\<rparr>"]
    stale_record_as_never_bought [OF h1 h2 h3,
      of example_config "\<lparr>last_price = 31000, percentage = - 8\<rparr>"]
    h1 h2
  show ?thesis by (simp add: c example_config_def)
qed



text \<open>
  C5. \<open>buy_first_time\<close> and \<open>buy_again\<close> are never both true; when both are false the
  symbol's step raises nothing, leaves \<open>orders\<close> and the store as they were, and adds to
  the trace the debug log "not enough discount" and nothing else (no order is placed).
\<close>

theorem one_trigger_path:
  assumes "dip_flags cfg (clock a) (orders st) symbol tk = Inr (buy_first_time, buy_again, d)"
  shows "\<not> (buy_first_time \<and> buy_again)
       \<and> (\<not> buy_first_time \<and> \<not> buy_again \<longrightarrow>
            process_symbol cfg a symbol tk st
              = (None, st\<lparr>trace := trace st @
                   [Log Debug (NotEnoughDiscountMsg symbol (last_price tk) (percentage tk))]\<rparr>))"
  using flags_exclusive [OF assms] assms by (auto simp: process_no_buy emit_def)

theorem one_trigger_path_witness:
  "dip_flags example_config (utc_at 1700036000000000) (orders example_state)
        ''BTC/USDT'' \<lparr>last_price = 29500, percentage = - 9\<rparr>
      = Inr (False, False, Some (- (3752999689475425 / 2251799813685248)))
   \<and> process_symbol example_config (funds_short ''BTC/USDT'')
        ''BTC/USDT'' \<lparr>last_price = 29500, percentage = - 9\<rparr> example_state
      = (None, example_state\<lparr>trace :=
           [Log Debug (NotEnoughDiscountMsg ''BTC/USDT'' 29500 (- 9))]\<rparr>)"
proof -
  let ?a = "funds_short ''BTC/USDT''"
  have c: "clock ?a = utc_at 1700036000000000" by (simp add: funds_short_def)
  have h: "dip_flags example_config (clock ?a) (orders example_state) ''BTC/USDT''
             \<lparr>last_price = 29500, percentage = - 9\<rparr>
           = Inr (False, False, Some (- (3752999689475425 / 2251799813685248)))"
    by (simp add: c example_flags discount_29500)
  from one_trigger_path [OF h] h show ?thesis
    by (simp add: c example_state_def)
qed

subsection \<open>The breadth of the day window\<close>







subsection \<open>Insufficient funds\<close>




subsection \<open>Writes of the Order Store\<close>

lemma store_discipline:
  assumes "extends P st st'"
  shows "saves_ok (new_events st st') \<and> store st' = stored (store st) (new_events st st')"
  using extends_new_events [OF assms] by simp

lemma extends_main: "extends (\<lambda>ev. True) st (snd (main cfg symbols att st))"
proof -
  let ?st0 = "emit (Log Info (StartingSessionMsg (dry_run cfg))) st"
  have "extends (\<lambda>ev. True) st ?st0"
    by (rule extends_emit [OF _ _ extends_refl]) simp_all
  moreover have "extends (\<lambda>ev. True) ?st0 (snd (main cfg symbols att st))"
    by (rule extends_mono [OF _ inner_main]) simp
  ultimately show ?thesis by (rule extends_trans)
qed

lemma retry_call_retries:
  assumes "f a st = (Raised e, s1)" and "transient e" and "n \<noteq> 0"
  shows "retry_call f (Suc n) d b (a # as) st
           = retry_call f n (d * b) b as
               (emit (Sleep d) (emit (Log Warning (RetryingMsg e d)) s1))"
  using assms by simp

lemma retry_call_stops:
  assumes "f a st = (out, s1)" and "\<forall>e. out = Raised e \<and> transient e \<longrightarrow> n = 0"
  shows "retry_call f (Suc n) d b (a # as) st = (out, s1, as)"
  using assms by (cases out) auto

lemma extends_retry_call:
  "extends (\<lambda>ev. True) st (fst (snd (retry_call (main cfg symbols) n d b atts st)))"
proof (induction n arbitrary: d atts st)
  case 0
  show ?case by simp
next
  case (Suc n)
  show ?case
  proof (cases atts)
    case Nil
    then show ?thesis by simp
  next
    case (Cons a as)
    obtain o1 s1 where m: "main cfg symbols a st = (o1, s1)"
      by (cases "main cfg symbols a st")
    from extends_main [of st cfg symbols a] m have s1: "extends (\<lambda>ev. True) st s1" by simp
    show ?thesis
    proof (cases "(\<exists>e. o1 = Raised e \<and> transient e) \<and> n \<noteq> 0")
      case True
      then obtain e where e: "o1 = Raised e" "transient e" and n: "n \<noteq> 0" by blast
      let ?s2 = "emit (Sleep d) (emit (Log Warning (RetryingMsg e d)) s1)"
      have "extends (\<lambda>ev. True) st (emit (Log Warning (RetryingMsg e d)) s1)"
        by (rule extends_emit [OF _ _ s1]) simp_all
      then have s2: "extends (\<lambda>ev. True) st ?s2"
        by (rule extends_emit [rotated 2]) simp_all
      have "retry_call (main cfg symbols) (Suc n) d b (a # as) st
              = retry_call (main cfg symbols) n (d * b) b as ?s2"
        by (rule retry_call_retries [where f = "main cfg symbols", OF m [unfolded e(1)] e(2) n])
      with extends_trans [OF s2 Suc.IH [of ?s2 "d * b" as]] Cons show ?thesis by simp
    next
      case False
      then have stop: "\<forall>e. o1 = Raised e \<and> transient e \<longrightarrow> n = 0" by blast
      have "retry_call (main cfg symbols) (Suc n) d b (a # as) st = (o1, s1, as)"
        by (rule retry_call_stops [where f = "main cfg symbols", OF m stop])
      with s1 Cons show ?thesis by simp
    qed
  qed
qed

lemma buy_step:
  "process_symbol example_config (order_filled ''BTC/USDT'') ''BTC/USDT''
       \<lparr>last_price = 29000, percentage = 5\<rparr>
       \<lparr>orders = [(''BTC/USDT'', example_purchase)], store = [(''BTC/USDT'', example_purchase)],
        trace = tr\<rparr>
     = (None,
        \<lparr>orders = [(''BTC/USDT'', second_purchase)], store = [(''BTC/USDT'', second_purchase)],
         trace = tr @
           [PlaceOrder ''BTC/USDT'' 29000 50 False (Inr second_purchase),
            Save [(''BTC/USDT'', second_purchase)],
            Log Info (BuyAgainMsg ''BTC/USDT'' 29000 (- (7505999378950825 / 2251799813685248))),
            HttpGet ''https://api.telegram.org/bottoken/sendMessage?chat_id=chat&text=text'']\<rparr>)"
proof -
  let ?a = "order_filled ''BTC/USDT''"
  let ?tk = "\<lparr>last_price = 29000, percentage = 5\<rparr>"
  let ?st = "\<lparr>orders = [(''BTC/USDT'', example_purchase)],
              store = [(''BTC/USDT'', example_purchase)], trace = tr\<rparr>"
  have c: "clock ?a = utc_at 1700036000000000" by (simp add: order_filled_def)
  have os: "orders ?st = orders example_state" by (simp add: example_state_def)
  have flags: "dip_flags example_config (clock ?a) (orders ?st) ''BTC/USDT'' ?tk
              = Inr (False, True, Some (- (7505999378950825 / 2251799813685248)))"
    unfolding c os by (simp add: example_flags discount_29000)
  have filled: "place_order_result ?a = Inr second_purchase" by (simp add: order_filled_def)
  have sent: "requests_get ?a url = Inr 200" for url
    by (simp add: order_filled_def telegram_ok_def)
  show ?thesis
    by (simp add: process_buy [OF flags] filled bought_def Let_def notify_returns [OF sent]
        save_def emit_def)
       (simp add: example_config_def telegram_url_def)
qed

lemma quiet_step:
  "process_symbol example_config (order_filled ''BTC/USDT'') ''BTC/USDT''
       \<lparr>last_price = 29500, percentage = 5\<rparr>
       \<lparr>orders = [(''BTC/USDT'', example_purchase)], store = [(''BTC/USDT'', example_purchase)],
        trace = tr\<rparr>
     = (None,
        \<lparr>orders = [(''BTC/USDT'', example_purchase)], store = [(''BTC/USDT'', example_purchase)],
         trace = tr @ [Log Debug (NotEnoughDiscountMsg ''BTC/USDT'' 29500 5)]\<rparr>)"
proof -
  let ?a = "order_filled ''BTC/USDT''"
  let ?tk = "\<lparr>last_price = 29500, percentage = 5\<rparr>"
  let ?st = "\<lparr>orders = [(''BTC/USDT'', example_purchase)],
              store = [(''BTC/USDT'', example_purchase)], trace = tr\<rparr>"
  have c: "clock ?a = utc_at 1700036000000000" by (simp add: order_filled_def)
  have os: "orders ?st = orders example_state" by (simp add: example_state_def)
  have flags: "dip_flags example_config (clock ?a) (orders ?st) ''BTC/USDT'' ?tk
              = Inr (False, False, Some (- (3752999689475425 / 2251799813685248)))"
    unfolding c os by (simp add: example_flags discount_29500)
  show ?thesis by (simp add: process_no_buy [OF flags] emit_def)
qed

lemma run_buy:
  "run example_config [''BTC/USDT'']
     [\<lparr>unsupported_result = Inr [], cycles = [quiet_cycle, buy_cycle]\<rparr>] example_state
   = (Running,
      \<lparr>orders = [(''BTC/USDT'', second_purchase)], store = [(''BTC/USDT'', second_purchase)],
       trace =
         [Log Info (StartingSessionMsg False), GetUnsupportedSymbols [''BTC/USDT''],
          GetOrders, Log Info (TrackingMsg [''BTC/USDT'']), Log Info (MinDropLevelMsg 7),
          Log Info (AdditionalDropLevelMsg 2), Log Info RunVerboseMsg,
          Log Info PreviouslyBoughtMsg, Log Info (BoughtMsg ''BTC/USDT'' (1 / 600) 30000),
          FetchTickers [''BTC/USDT''],
          Log Debug (NotEnoughDiscountMsg ''BTC/USDT'' 29500 5),
          Log Info (CheckingAgainMsg 10), Sleep 600,
          FetchTickers [''BTC/USDT''],
          PlaceOrder ''BTC/USDT'' 29000 50 False (Inr second_purchase),
          Save [(''BTC/USDT'', second_purchase)],
          Log Info (BuyAgainMsg ''BTC/USDT'' 29000 (- (7505999378950825 / 2251799813685248))),
          HttpGet ''https://api.telegram.org/bottoken/sendMessage?chat_id=chat&text=text'',
          Log Info (CheckingAgainMsg 10), Sleep 600]\<rparr>,
      [])"
  by (simp add: run_def eval_nat_numeral main_def check_symbols_def load_orders_def
      get_orders_def log_previous_def example_state_def emit_def Let_def buy_cycle_def
      quiet_cycle_def example_config_def sleep_seconds
      buy_step [unfolded example_config_def] quiet_step [unfolded example_config_def])
     (simp add: example_purchase_def)

text \<open>
  C7. The step of one symbol writes a record exactly when \<^verbatim>\<open>place_order\<close> returned an
  order: then the order replaces the symbol's record in \<open>orders\<close> (its one record: keys
  stay distinct, also over a whole snapshot), and the whole mapping is saved right after
  the order, so that the store equals \<open>orders\<close>; in every other case \<open>orders\<close> and the
  store are left as they were and nothing is saved. Nothing else writes the store: over
  a snapshot, over the trading loop, over \<^verbatim>\<open>main\<close> with its start-up and over the whole
  program with its retries, every save follows at once an order that the exchange
  returned and holds it, every such order is followed by its save, and the store at the
  end is the mapping of the last save (the store of the beginning when there was none).
\<close>

theorem store_written_on_success:
  "(let st' = snd (process_symbol cfg a symbol tk st) in
      (case order_placed cfg a symbol tk st of
         Some order \<Rightarrow>
           orders st' = AList.update symbol order (orders st)
           \<and> map_of (orders st') symbol = Some order
           \<and> store st' = orders st'
           \<and> take 2 (new_events st st')
               = [PlaceOrder symbol (last_price tk) (amount_usd cfg) (dry_run cfg) (Inr order),
                  Save (orders st')]
       | None \<Rightarrow>
           orders st' = orders st \<and> store st' = store st
           \<and> \<not> list_ex is_save (new_events st st'))
      \<and> (distinct (map fst (orders st)) \<longrightarrow> distinct (map fst (orders st'))))
   \<and> (distinct (map fst (orders st)) \<longrightarrow>
        distinct (map fst (orders (snd (for_tickers cfg ans tks st)))))
   \<and> (let st' = snd (for_tickers cfg ans tks st) in
        saves_ok (new_events st st') \<and> store st' = stored (store st) (new_events st st'))
   \<and> (let st' = snd (trading_loop cfg symbols cs st) in
        saves_ok (new_events st st') \<and> store st' = stored (store st) (new_events st st'))
   \<and> (let st' = snd (main cfg symbols att st) in
        saves_ok (new_events st st') \<and> store st' = stored (store st) (new_events st st'))
   \<and> (let st' = fst (snd (run cfg symbols atts st)) in
        saves_ok (new_events st st') \<and> store st' = stored (store st) (new_events st st'))"
proof -
  let ?st = "snd (process_symbol cfg a symbol tk st)"
  have step: "case order_placed cfg a symbol tk st of
         Some order \<Rightarrow>
           orders ?st = AList.update symbol order (orders st)
           \<and> map_of (orders ?st) symbol = Some order
           \<and> store ?st = orders ?st
           \<and> take 2 (new_events st ?st)
               = [PlaceOrder symbol (last_price tk) (amount_usd cfg) (dry_run cfg) (Inr order),
                  Save (orders ?st)]
       | None \<Rightarrow>
           orders ?st = orders st \<and> store ?st = store st
           \<and> \<not> list_ex is_save (new_events st ?st)"
  proof (cases "order_placed cfg a symbol tk st")
    case None
    from process_symbol_no_order(1) [OF None] obtain evs where
      "trace ?st = trace st @ evs" "\<not> list_ex is_save evs" by blast
    with None show ?thesis by (simp add: process_symbol_no_order)
  next
    case (Some order)
    then have ok: "place_order_result a = Inr order"
      by (auto simp: order_placed_def split: sum.splits if_splits)
    from process_symbol_success(1) [OF Some] obtain evs where
      "trace ?st = trace st @ PlaceOrder symbol (last_price tk) (amount_usd cfg) (dry_run cfg)
                     (place_order_result a)
                     # Save (AList.update symbol order (orders st)) # evs" by blast
    with Some ok show ?thesis by (simp add: process_symbol_success update_conv')
  qed
  have snapshot: "saves_ok (new_events st (snd (for_tickers cfg ans tks st)))
      \<and> store (snd (for_tickers cfg ans tks st))
          = stored (store st) (new_events st (snd (for_tickers cfg ans tks st)))"
    by (rule store_discipline [OF inner_for_tickers [OF extends_refl]])
  have loop: "saves_ok (new_events st (snd (trading_loop cfg symbols cs st)))
      \<and> store (snd (trading_loop cfg symbols cs st))
          = stored (store st) (new_events st (snd (trading_loop cfg symbols cs st)))"
    by (rule store_discipline [OF inner_trading_loop [OF extends_refl]])
  have whole: "saves_ok (new_events st (snd (main cfg symbols att st)))
      \<and> store (snd (main cfg symbols att st))
          = stored (store st) (new_events st (snd (main cfg symbols att st)))"
    by (rule store_discipline [OF extends_main])
  have program: "saves_ok (new_events st (fst (snd (run cfg symbols atts st))))
      \<and> store (fst (snd (run cfg symbols atts st)))
          = stored (store st) (new_events st (fst (snd (run cfg symbols atts st))))"
    unfolding run_def by (rule store_discipline [OF extends_retry_call])
  from step snapshot loop whole program show ?thesis
    by (simp add: Let_def process_symbol_distinct for_tickers_distinct)
qed

theorem store_written_on_success_witness:
  "distinct (map fst (orders example_state))
   \<and> order_placed example_config (order_filled ''BTC/USDT'') ''BTC/USDT''
        \<lparr>last_price = 29000, percentage = 5\<rparr> example_state = Some second_purchase
   \<and> process_symbol example_config (order_filled ''BTC/USDT'') ''BTC/USDT''
        \<lparr>last_price = 29000, percentage = 5\<rparr> example_state
      = (None,
         \<lparr>orders = [(''BTC/USDT'', second_purchase)], store = [(''BTC/USDT'', second_purchase)],
          trace =
           [PlaceOrder ''BTC/USDT'' 29000 50 False (Inr second_purchase),
            Save [(''BTC/USDT'', second_purchase)],
            Log Info (BuyAgainMsg ''BTC/USDT'' 29000 (- (7505999378950825 / 2251799813685248))),
            HttpGet ''https://api.telegram.org/bottoken/sendMessage?chat_id=chat&text=text'']\<rparr>)
   \<and> distinct (map fst (orders (snd (process_symbol example_config (order_filled ''BTC/USDT'')
        ''BTC/USDT'' \<lparr>last_price = 29000, percentage = 5\<rparr> example_state))))
   \<and> store (fst (snd (run example_config [''BTC/USDT'']
        [\<lparr>unsupported_result = Inr [], cycles = [quiet_cycle, buy_cycle]\<rparr>] example_state)))
      = [(''BTC/USDT'', second_purchase)]
   \<and> filter (\<lambda>ev. \<not> plain ev) (new_events example_state (fst (snd (run example_config
        [''BTC/USDT'']
        [\<lparr>unsupported_result = Inr [], cycles = [quiet_cycle, buy_cycle]\<rparr>] example_state))))
      = [PlaceOrder ''BTC/USDT'' 29000 50 False (Inr second_purchase),
         Save [(''BTC/USDT'', second_purchase)]]"
proof -
  let ?a = "order_filled ''BTC/USDT''"
  let ?tk = "\<lparr>last_price = 29000, percentage = 5\<rparr>"
  let ?atts = "[\<lparr>unsupported_result = Inr [], cycles = [quiet_cycle, buy_cycle]\<rparr>]"
  have h1: "distinct (map fst (orders example_state))"
    by (simp add: example_state_def)
  have c: "clock ?a = utc_at 1700036000000000" by (simp add: order_filled_def)
  have flags: "dip_flags example_config (clock ?a) (orders example_state) ''BTC/USDT'' ?tk
                 = Inr (False, True, Some (- (7505999378950825 / 2251799813685248)))"
    by (simp add: c example_flags discount_29000)
  have h2: "order_placed example_config ?a ''BTC/USDT'' ?tk example_state = Some second_purchase"
    by (simp add: order_placed_def flags) (simp add: order_filled_def)
  have step: "process_symbol example_config ?a ''BTC/USDT'' ?tk example_state
      = (None,
         \<lparr>orders = [(''BTC/USDT'', second_purchase)], store = [(''BTC/USDT'', second_purchase)],
          trace =
           [PlaceOrder ''BTC/USDT'' 29000 50 False (Inr second_purchase),
            Save [(''BTC/USDT'', second_purchase)],
            Log Info (BuyAgainMsg ''BTC/USDT'' 29000 (- (7505999378950825 / 2251799813685248))),
            HttpGet ''https://api.telegram.org/bottoken/sendMessage?chat_id=chat&text=text'']\<rparr>)"
    using buy_step [of "[]"] by (simp add: example_state_def)
  note inst = store_written_on_success [where cfg = example_config and a = ?a
      and symbol = "''BTC/USDT''" and tk = ?tk and st = example_state
      and symbols = "[''BTC/USDT'']" and atts = ?atts]
  from inst h1 have d: "distinct (map fst (orders (snd (process_symbol example_config ?a
        ''BTC/USDT'' ?tk example_state))))"
    by (simp add: Let_def)
  from inst have "store (fst (snd (run example_config [''BTC/USDT''] ?atts example_state)))
      = stored (store example_state)
          (new_events example_state
             (fst (snd (run example_config [''BTC/USDT''] ?atts example_state))))"
    by (simp add: Let_def)
  then have s: "store (fst (snd (run example_config [''BTC/USDT''] ?atts example_state)))
      = [(''BTC/USDT'', second_purchase)]"
    by (simp add: run_buy)
  have e: "filter (\<lambda>ev. \<not> plain ev) (new_events example_state (fst (snd (run example_config
        [''BTC/USDT''] ?atts example_state))))
      = [PlaceOrder ''BTC/USDT'' 29000 50 False (Inr second_purchase),
         Save [(''BTC/USDT'', second_purchase)]]"
    by (simp add: run_buy) (simp add: new_events_def example_state_def)
  from h1 h2 step d s e show ?thesis by simp
qed

subsection \<open>A notification that fails\<close>










subsection \<open>The retry decorator\<close>

lemma retry_delays_append: "retry_delays (xs @ ys) = retry_delays xs @ retry_delays ys"
  by (induction xs rule: retry_delays.induct) simp_all

lemma inner_retry_delays: "list_all inner evs \<Longrightarrow> retry_delays evs = []"
  by (induction evs rule: retry_delays.induct) simp_all

lemma inner_not_start: "inner ev \<Longrightarrow> \<not> is_start ev"
  by (cases ev rule: is_start.cases) simp_all

lemma inner_starts: "list_all inner evs \<Longrightarrow> filter is_start evs = []"
  by (induction evs) (auto dest: inner_not_start)

lemma retry_call_schedule:
  assumes "retry_call (main cfg symbols) n d b atts st = (out, st', rest)"
  shows "\<exists>evs r. trace st' = trace st @ evs
     \<and> retry_delays evs = map (\<lambda>k. d * b ^ k) [0..<r]
     \<and> length (filter is_start evs) + length rest = length atts
     \<and> length (filter is_start evs) \<le> n
     \<and> r \<le> length (filter is_start evs) \<and> length (filter is_start evs) \<le> Suc r
     \<and> (0 < n \<longrightarrow> r < n)
     \<and> (\<forall>e. out = Raised e \<and> transient e \<longrightarrow> length (filter is_start evs) = n)"
  using assms
proof (induction n arbitrary: d atts st)
  case 0
  then have "st' = st" "rest = atts" "out = Returned" by simp_all
  then show ?case by (intro exI [of _ "[]"] exI [of _ 0]) simp
next
  case (Suc n)
  show ?case
  proof (cases atts)
    case Nil
    with Suc.prems have "st' = st" "rest = []" "out = Running" by simp_all
    with Nil show ?thesis by (intro exI [of _ "[]"] exI [of _ 0]) simp
  next
    case (Cons a as)
    obtain o1 s1 where m: "main cfg symbols a st = (o1, s1)"
      by (cases "main cfg symbols a st")
    have prem: "retry_call (main cfg symbols) (Suc n) d b (a # as) st = (out, st', rest)"
      using Suc.prems unfolding Cons .
    from main_events [of cfg symbols a st] m obtain e1 where
      tr1: "trace s1 = trace st @ Log Info (StartingSessionMsg (dry_run cfg)) # e1"
      and in1: "list_all inner e1" by auto
    let ?start = "Log Info (StartingSessionMsg (dry_run cfg))"
    have d1: "retry_delays (?start # e1) = []"
      using in1 by (simp add: inner_retry_delays)
    have c1: "filter is_start (?start # e1) = [?start]"
      using in1 by (simp add: inner_starts)
    show ?thesis
    proof (cases "(\<exists>e. o1 = Raised e \<and> transient e) \<and> n \<noteq> 0")
      case True
      then obtain e where e: "o1 = Raised e" "transient e" and n: "n \<noteq> 0" by blast
      let ?s2 = "emit (Sleep d) (emit (Log Warning (RetryingMsg e d)) s1)"
      from prem have
        "retry_call (main cfg symbols) n (d * b) b as ?s2 = (out, st', rest)"
        by (simp only: retry_call_retries [where f = "main cfg symbols", OF m [unfolded e(1)] e(2) n])
      from Suc.IH [OF this] obtain evs r where
        tr: "trace st' = trace ?s2 @ evs"
        and dl: "retry_delays evs = map (\<lambda>k. d * b * b ^ k) [0..<r]"
        and cnt: "length (filter is_start evs) + length rest = length as"
        and le: "length (filter is_start evs) \<le> n"
        and lo: "r \<le> length (filter is_start evs)" and hi: "length (filter is_start evs) \<le> Suc r"
        and rn: "0 < n \<longrightarrow> r < n"
        and ex: "\<forall>e. out = Raised e \<and> transient e \<longrightarrow> length (filter is_start evs) = n"
        by blast
      let ?evs = "?start # e1 @ [Log Warning (RetryingMsg e d), Sleep d] @ evs"
      have "trace st' = trace st @ ?evs"
        using tr tr1 by simp
      moreover have "retry_delays ?evs = map (\<lambda>k. d * b ^ k) [0..<Suc r]"
      proof -
        have "retry_delays ?evs = d # retry_delays evs"
          using in1 by (simp add: retry_delays_append inner_retry_delays)
        also have "\<dots> = map (\<lambda>k. d * b ^ k) [0..<Suc r]"
          by (simp add: dl map_upt_Suc mult.assoc del: upt_Suc)
        finally show ?thesis .
      qed
      moreover have "length (filter is_start ?evs) = Suc (length (filter is_start evs))"
        using in1 by (simp add: inner_starts)
      ultimately show ?thesis
        using cnt le lo hi rn ex n Cons
        by (intro exI [of _ ?evs] exI [of _ "Suc r"]) auto
    next
      case False
      then have stop: "\<forall>e. o1 = Raised e \<and> transient e \<longrightarrow> n = 0" by blast
      from prem have "(o1, s1, as) = (out, st', rest)"
        by (simp only: retry_call_stops [where f = "main cfg symbols", OF m stop])
      then have res: "out = o1" "st' = s1" "rest = as" by simp_all
      show ?thesis
        using tr1 d1 c1 res stop Cons
        by (intro exI [of _ "?start # e1"] exI [of _ 0]) auto
    qed
  qed
qed

lemma retry_call_gives_up:
  assumes "retry_call f n d b atts st = (out, st', rest)"
  shows "(\<exists>e. out = Raised e \<and> transient e)
           \<longleftrightarrow> (0 < n \<and> n \<le> length atts \<and> failing f d b (take n atts) st)"
  using assms
proof (induction n arbitrary: d atts st)
  case 0
  then show ?case by simp
next
  case (Suc n)
  show ?case
  proof (cases atts)
    case Nil
    with Suc.prems show ?thesis by simp
  next
    case (Cons a as)
    obtain o1 s1 where m: "f a st = (o1, s1)" by (cases "f a st")
    have prem: "retry_call f (Suc n) d b (a # as) st = (out, st', rest)"
      using Suc.prems unfolding Cons .
    show ?thesis
    proof (cases "(\<exists>e. o1 = Raised e \<and> transient e) \<and> n \<noteq> 0")
      case True
      then obtain e where e: "o1 = Raised e" "transient e" and n: "n \<noteq> 0" by blast
      let ?s2 = "emit (Sleep d) (emit (Log Warning (RetryingMsg e d)) s1)"
      from prem have "retry_call f n (d * b) b as ?s2 = (out, st', rest)"
        by (simp only: retry_call_retries [where f = f, OF m [unfolded e(1)] e(2) n])
      from Suc.IH [OF this] e(2) n show ?thesis
        unfolding Cons by (simp add: m e(1))
    next
      case False
      then have stop: "\<forall>e. o1 = Raised e \<and> transient e \<longrightarrow> n = 0" by blast
      from prem have "(o1, s1, as) = (out, st', rest)"
        by (simp only: retry_call_stops [where f = f, OF m stop])
      then have res: "out = o1" by simp
      show ?thesis
      proof (cases "\<exists>e. o1 = Raised e \<and> transient e")
        case True
        with stop have "n = 0" by blast
        with True res show ?thesis unfolding Cons by (auto simp: m)
      next
        case False
        with res show ?thesis unfolding Cons by (cases o1) (auto simp: m)
      qed
    qed
  qed
qed

text \<open>
  C8, as amended. The retry decorator is around the whole of \<^verbatim>\<open>main\<close>: in any run, the
  delays it announces are \<open>15 * 2\<^sup>k\<close> seconds in order (15, 30, 60, \<dots>), at most seven
  of them; \<^verbatim>\<open>main\<close> is started at most eight times, once per attempt used, each start
  being a full start-up. The program ends with a \<^verbatim>\<open>RequestTimeout\<close> or \<^verbatim>\<open>NetworkError\<close>
  exactly when eight calls of \<^verbatim>\<open>main\<close> in a row raised one of the two. Whatever call
  inside \<^verbatim>\<open>main\<close> raised such an error, the program logs, sleeps and goes on by calling
  \<^verbatim>\<open>main\<close> again with one try less and the delay doubled; at the last try the error
  leaves the program as it is, with no log or sleep after it.
\<close>

theorem retry_whole_main:
  assumes "run cfg symbols atts st = (out, st', rest)"
  shows "(let evs = new_events st st'; delays = retry_delays evs;
              calls = length (filter is_start evs) in
          delays = map (\<lambda>k. 15 * 2 ^ k) [0..<length delays]
          \<and> length delays < 8 \<and> calls \<le> 8
          \<and> calls + length rest = length atts
          \<and> length delays \<le> calls \<and> calls \<le> Suc (length delays)
          \<and> (\<forall>e. out = Raised e \<and> transient e \<longrightarrow> calls = 8))
       \<and> ((\<exists>e. out = Raised e \<and> transient e)
            \<longleftrightarrow> 8 \<le> length atts \<and> failing (main cfg symbols) 15 2 (take 8 atts) st)
       \<and> (main cfg symbols att st0 = (Raised e, st1) \<and> transient e \<longrightarrow>
            run cfg symbols (att # atts') st0
              = retry_call (main cfg symbols) 7 30 2 atts'
                  (emit (Sleep 15) (emit (Log Warning (RetryingMsg e 15)) st1))
            \<and> retry_call (main cfg symbols) 1 d b (att # atts') st0 = (Raised e, st1, atts'))"
proof -
  from retry_call_schedule [OF assms [unfolded run_def]] obtain evs r where
    tr: "trace st' = trace st @ evs"
    and dl: "retry_delays evs = map (\<lambda>k. 15 * 2 ^ k) [0..<r]"
    and rest: "length (filter is_start evs) + length rest = length atts"
      "length (filter is_start evs) \<le> 8"
      "r \<le> length (filter is_start evs)" "length (filter is_start evs) \<le> Suc r"
      "r < 8"
      "\<forall>e. out = Raised e \<and> transient e \<longrightarrow> length (filter is_start evs) = 8"
    by auto
  have len: "length (retry_delays evs) = r" by (simp add: dl)
  have first: "let evs = new_events st st'; delays = retry_delays evs;
              calls = length (filter is_start evs) in
          delays = map (\<lambda>k. 15 * 2 ^ k) [0..<length delays]
          \<and> length delays < 8 \<and> calls \<le> 8
          \<and> calls + length rest = length atts
          \<and> length delays \<le> calls \<and> calls \<le> Suc (length delays)
          \<and> (\<forall>e. out = Raised e \<and> transient e \<longrightarrow> calls = 8)"
    unfolding Let_def new_events_app [OF tr] len using dl rest by simp
  have gives_up: "(\<exists>e. out = Raised e \<and> transient e)
            \<longleftrightarrow> 8 \<le> length atts \<and> failing (main cfg symbols) 15 2 (take 8 atts) st"
    using retry_call_gives_up [OF assms [unfolded run_def]] by simp
  have second: "run cfg symbols (att # atts') st0
              = retry_call (main cfg symbols) 7 30 2 atts'
                  (emit (Sleep 15) (emit (Log Warning (RetryingMsg e 15)) st1))"
    if "main cfg symbols att st0 = (Raised e, st1)" and "transient e"
  proof -
    have "retry_call (main cfg symbols) (Suc 7) 15 2 (att # atts') st0
            = retry_call (main cfg symbols) 7 (15 * 2) 2 atts'
                (emit (Sleep 15) (emit (Log Warning (RetryingMsg e 15)) st1))"
      by (rule retry_call_retries [where f = "main cfg symbols", OF that]) simp
    then show ?thesis by (simp add: run_def)
  qed
  have last: "retry_call (main cfg symbols) 1 d b (att # atts') st0 = (Raised e, st1, atts')"
    if "main cfg symbols att st0 = (Raised e, st1)"
    using that by simp
  from first gives_up second last show ?thesis by blast
qed

lemma main_offline:
  "main example_config [''BTC/USDT''] exchange_offline \<lparr>orders = os, store = [], trace = tr\<rparr>
     = (Raised NetworkError,
        \<lparr>orders = os, store = [],
         trace = tr @ [Log Info (StartingSessionMsg False),
                       GetUnsupportedSymbols [''BTC/USDT'']]\<rparr>)"
  by (simp add: main_def check_symbols_def exchange_offline_def emit_def example_config_def)

lemma run_offline:
  "run example_config [''BTC/USDT''] (replicate 8 exchange_offline) empty_state
     = (Raised NetworkError,
        \<lparr>orders = [], store = [],
         trace =
           [Log Info (StartingSessionMsg False), GetUnsupportedSymbols [''BTC/USDT''],
            Log Warning (RetryingMsg NetworkError 15), Sleep 15,
            Log Info (StartingSessionMsg False), GetUnsupportedSymbols [''BTC/USDT''],
            Log Warning (RetryingMsg NetworkError 30), Sleep 30,
            Log Info (StartingSessionMsg False), GetUnsupportedSymbols [''BTC/USDT''],
            Log Warning (RetryingMsg NetworkError 60), Sleep 60,
            Log Info (StartingSessionMsg False), GetUnsupportedSymbols [''BTC/USDT''],
            Log Warning (RetryingMsg NetworkError 120), Sleep 120,
            Log Info (StartingSessionMsg False), GetUnsupportedSymbols [''BTC/USDT''],
            Log Warning (RetryingMsg NetworkError 240), Sleep 240,
            Log Info (StartingSessionMsg False), GetUnsupportedSymbols [''BTC/USDT''],
            Log Warning (RetryingMsg NetworkError 480), Sleep 480,
            Log Info (StartingSessionMsg False), GetUnsupportedSymbols [''BTC/USDT''],
            Log Warning (RetryingMsg NetworkError 960), Sleep 960,
            Log Info (StartingSessionMsg False), GetUnsupportedSymbols [''BTC/USDT'']]\<rparr>,
        [])"
  by (simp add: run_def eval_nat_numeral transient_def main_offline empty_state_def emit_def)

theorem retry_whole_main_witness:
  "run example_config [''BTC/USDT''] (replicate 8 exchange_offline) empty_state
     = (Raised NetworkError,
        \<lparr>orders = [], store = [],
         trace =
           [Log Info (StartingSessionMsg False), GetUnsupportedSymbols [''BTC/USDT''],
            Log Warning (RetryingMsg NetworkError 15), Sleep 15,
            Log Info (StartingSessionMsg False), GetUnsupportedSymbols [''BTC/USDT''],
            Log Warning (RetryingMsg NetworkError 30), Sleep 30,
            Log Info (StartingSessionMsg False), GetUnsupportedSymbols [''BTC/USDT''],
            Log Warning (RetryingMsg NetworkError 60), Sleep 60,
            Log Info (StartingSessionMsg False), GetUnsupportedSymbols [''BTC/USDT''],
            Log Warning (RetryingMsg NetworkError 120), Sleep 120,
            Log Info (StartingSessionMsg False), GetUnsupportedSymbols [''BTC/USDT''],
            Log Warning (RetryingMsg NetworkError 240), Sleep 240,
            Log Info (StartingSessionMsg False), GetUnsupportedSymbols [''BTC/USDT''],
            Log Warning (RetryingMsg NetworkError 480), Sleep 480,
            Log Info (StartingSessionMsg False), GetUnsupportedSymbols [''BTC/USDT''],
            Log Warning (RetryingMsg NetworkError 960), Sleep 960,
            Log Info (StartingSessionMsg False), GetUnsupportedSymbols [''BTC/USDT'']]\<rparr>,
        [])
   \<and> transient NetworkError
   \<and> main example_config [''BTC/USDT''] exchange_offline empty_state
       = (Raised NetworkError,
          \<lparr>orders = [], store = [],
           trace = [Log Info (StartingSessionMsg False),
                    GetUnsupportedSymbols [''BTC/USDT'']]\<rparr>)
   \<and> 8 \<le> length (replicate 8 exchange_offline)
   \<and> failing (main example_config [''BTC/USDT'']) 15 2
        (take 8 (replicate 8 exchange_offline)) empty_state
   \<and> length (filter is_start (new_events empty_state
        (fst (snd (run example_config [''BTC/USDT''] (replicate 8 exchange_offline)
           empty_state))))) = 8
   \<and> retry_delays (new_events empty_state
        (fst (snd (run example_config [''BTC/USDT''] (replicate 8 exchange_offline)
           empty_state)))) = [15, 30, 60, 120, 240, 480, 960]
   \<and> retry_call (main example_config [''BTC/USDT'']) 1 960 2 [exchange_offline] empty_state
       = (Raised NetworkError,
          \<lparr>orders = [], store = [],
           trace = [Log Info (StartingSessionMsg False),
                    GetUnsupportedSymbols [''BTC/USDT'']]\<rparr>, [])"
proof -
  have t: "transient NetworkError" by (simp add: transient_def)
  have m: "main example_config [''BTC/USDT''] exchange_offline empty_state
       = (Raised NetworkError,
          \<lparr>orders = [], store = [],
           trace = [Log Info (StartingSessionMsg False),
                    GetUnsupportedSymbols [''BTC/USDT'']]\<rparr>)"
    using main_offline [of "[]" "[]"] by (simp add: empty_state_def)
  note inst = retry_whole_main [OF run_offline, where att = exchange_offline
      and ?st0.0 = empty_state and e = NetworkError and atts' = "[]" and d = 960 and b = 2
      and ?st1.0 = "\<lparr>orders = [], store = [],
           trace = [Log Info (StartingSessionMsg False),
                    GetUnsupportedSymbols [''BTC/USDT'']]\<rparr>"]
  from inst have calls: "length (filter is_start (new_events empty_state
        (fst (snd (run example_config [''BTC/USDT''] (replicate 8 exchange_offline)
           empty_state))))) = 8"
    using t by (simp add: Let_def run_offline)
  from inst have all_fail: "8 \<le> length (replicate 8 exchange_offline)
      \<and> failing (main example_config [''BTC/USDT'']) 15 2
          (take 8 (replicate 8 exchange_offline)) empty_state"
    using t by blast
  from inst m t have final: "retry_call (main example_config [''BTC/USDT'']) 1 960 2
        [exchange_offline] empty_state
       = (Raised NetworkError,
          \<lparr>orders = [], store = [],
           trace = [Log Info (StartingSessionMsg False),
                    GetUnsupportedSymbols [''BTC/USDT'']]\<rparr>, [])"
    by blast
  have delays: "retry_delays (new_events empty_state
        (fst (snd (run example_config [''BTC/USDT''] (replicate 8 exchange_offline)
           empty_state)))) = [15, 30, 60, 120, 240, 480, 960]"
    by (simp add: run_offline) (simp add: new_events_def empty_state_def)
  from t m run_offline calls all_fail final delays show ?thesis by simp
qed

text \<open>
  C8 as stated fails: after a \<^verbatim>\<open>NetworkError\<close> of the ticker fetch the retry runs the
  start-up of \<^verbatim>\<open>main\<close> again (start message, symbol check, reading of the store), not
  the fetch alone; and a \<^verbatim>\<open>RequestTimeout\<close> raised by the placing of an order is retried
  in the same way.
\<close>

theorem retry_scope_counterexample:
  "run example_config [''BTC/USDT'']
     [\<lparr>unsupported_result = Inr [], cycles = [fetch_fails]\<rparr>,
      \<lparr>unsupported_result = Inr [], cycles = []\<rparr>] empty_state
     = (Running,
        \<lparr>orders = [], store = [],
         trace =
           [Log Info (StartingSessionMsg False), GetUnsupportedSymbols [''BTC/USDT''],
            GetOrders, Log Info (TrackingMsg [''BTC/USDT'']), Log Info (MinDropLevelMsg 7),
            Log Info (AdditionalDropLevelMsg 2), Log Info RunVerboseMsg,
            FetchTickers [''BTC/USDT''],
            Log Warning (RetryingMsg NetworkError 15), Sleep 15,
            Log Info (StartingSessionMsg False), GetUnsupportedSymbols [''BTC/USDT''],
            GetOrders, Log Info (TrackingMsg [''BTC/USDT'']), Log Info (MinDropLevelMsg 7),
            Log Info (AdditionalDropLevelMsg 2), Log Info RunVerboseMsg]\<rparr>,
        [])
   \<and> run example_config [''BTC/USDT'']
     [\<lparr>unsupported_result = Inr [], cycles = [timeout_cycle]\<rparr>,
      \<lparr>unsupported_result = Inr [], cycles = []\<rparr>] empty_state
     = (Running,
        \<lparr>orders = [], store = [],
         trace =
           [Log Info (StartingSessionMsg False), GetUnsupportedSymbols [''BTC/USDT''],
            GetOrders, Log Info (TrackingMsg [''BTC/USDT'']), Log Info (MinDropLevelMsg 7),
            Log Info (AdditionalDropLevelMsg 2), Log Info RunVerboseMsg,
            FetchTickers [''BTC/USDT''],
            PlaceOrder ''BTC/USDT'' 29000 50 False (Inl RequestTimeout),
            Log Warning (RetryingMsg RequestTimeout 15), Sleep 15,
            Log Info (StartingSessionMsg False), GetUnsupportedSymbols [''BTC/USDT''],
            GetOrders, Log Info (TrackingMsg [''BTC/USDT'']), Log Info (MinDropLevelMsg 7),
            Log Info (AdditionalDropLevelMsg 2), Log Info RunVerboseMsg]\<rparr>,
        [])"
proof -
  have flags: "dip_flags example_config (utc_at 1700036000000000) [] ''BTC/USDT''
      \<lparr>last_price = 29000, percentage = - 8\<rparr> = Inr (True, False, None)"
    by (simp add: flags_first_time example_config_def)
  have step: "process_symbol example_config (order_times_out ''BTC/USDT'') ''BTC/USDT''
       \<lparr>last_price = 29000, percentage = - 8\<rparr> \<lparr>orders = [], store = [], trace = tr\<rparr>
     = (Some RequestTimeout,
        \<lparr>orders = [], store = [],
         trace = tr @ [PlaceOrder ''BTC/USDT'' 29000 50 False (Inl RequestTimeout)]\<rparr>)" for tr
    by (simp add: process_symbol_def order_times_out_def flags emit_def)
       (simp add: example_config_def)
  show ?thesis
    by (simp add: run_def eval_nat_numeral transient_def main_def check_symbols_def
        load_orders_def get_orders_def
        log_previous_def empty_state_def emit_def Let_def fetch_fails_def timeout_cycle_def
        example_config_def step [unfolded example_config_def])
qed

end
